theory Spec2Isabelle
  imports Main "HOL-Library.Sublist"
begin

section \<open>Strings as JavaScript sees them\<close>

text \<open>
  Characters are code points below 256. \<open>trim\<close> is \<open>String.prototype.trim\<close> (and the
  validator's \<open>trim()\<close> sanitizer, which strips the same characters): white space and line
  terminators are removed at both ends.
\<close>

definition whitespace :: "char list" where
  "whitespace = [CHR 0x09, CHR 0x0A, CHR 0x0B, CHR 0x0C, CHR 0x0D, CHR 0x20, CHR 0xA0]"

definition trim :: "string \<Rightarrow> string" where
  "trim s = rev (dropWhile (\<lambda>c. c \<in> set whitespace) (rev (dropWhile (\<lambda>c. c \<in> set whitespace) s)))"

text \<open>
  \<open>toLowerCase\<close> on these characters: the letters A to Z and the capital letters of
  Latin-1 (\<open>0xC0\<close> to \<open>0xDE\<close> but the multiplication sign \<open>0xD7\<close>) go to their small
  letters, \<open>0x20\<close> above; every other character stays.
\<close>

definition toLowerCase_char :: "char \<Rightarrow> char" where
  "toLowerCase_char c =
     (case map_of
        (zip (''ABCDEFGHIJKLMNOPQRSTUVWXYZ'' @
              [CHR 0xC0, CHR 0xC1, CHR 0xC2, CHR 0xC3, CHR 0xC4, CHR 0xC5, CHR 0xC6, CHR 0xC7,
               CHR 0xC8, CHR 0xC9, CHR 0xCA, CHR 0xCB, CHR 0xCC, CHR 0xCD, CHR 0xCE, CHR 0xCF,
               CHR 0xD0, CHR 0xD1, CHR 0xD2, CHR 0xD3, CHR 0xD4, CHR 0xD5, CHR 0xD6, CHR 0xD8,
               CHR 0xD9, CHR 0xDA, CHR 0xDB, CHR 0xDC, CHR 0xDD, CHR 0xDE])
             (''abcdefghijklmnopqrstuvwxyz'' @
              [CHR 0xE0, CHR 0xE1, CHR 0xE2, CHR 0xE3, CHR 0xE4, CHR 0xE5, CHR 0xE6, CHR 0xE7,
               CHR 0xE8, CHR 0xE9, CHR 0xEA, CHR 0xEB, CHR 0xEC, CHR 0xED, CHR 0xEE, CHR 0xEF,
               CHR 0xF0, CHR 0xF1, CHR 0xF2, CHR 0xF3, CHR 0xF4, CHR 0xF5, CHR 0xF6, CHR 0xF8,
               CHR 0xF9, CHR 0xFA, CHR 0xFB, CHR 0xFC, CHR 0xFD, CHR 0xFE])) c of
        Some l \<Rightarrow> l
      | None \<Rightarrow> c)"

definition toLowerCase :: "string \<Rightarrow> string" where
  "toLowerCase s = map toLowerCase_char s"

text \<open>\<open>haystack.includes(needle)\<close>: the needle occurs as a contiguous run.\<close>

primrec includes_str :: "string \<Rightarrow> string \<Rightarrow> bool" where
  "includes_str [] needle = (needle = [])"
| "includes_str (c # cs) needle = (prefix needle (c # cs) \<or> includes_str cs needle)"

text \<open>A string in a JavaScript condition: \<open>undefined\<close> and the empty string are falsy.\<close>

definition truthy :: "string option \<Rightarrow> bool" where
  "truthy v = (case v of None \<Rightarrow> False | Some s \<Rightarrow> s \<noteq> [])"

section \<open>Identifiers\<close>

text \<open>
  An ObjectId is twelve bytes; in a template literal, in a URL and in JSON it is its
  24 lower-case hexadecimal digits, which is how it is kept here.
\<close>

type_synonym object_id = string

definition is_object_id :: "string \<Rightarrow> bool" where
  "is_object_id s = (length s = 24 \<and> (\<forall>c \<in> set s. c \<in> set ''0123456789abcdef''))"

text \<open>Casting a route parameter to an ObjectId: 24 hexadecimal digits of either case.\<close>

definition castObjectId :: "string \<Rightarrow> object_id option" where
  "castObjectId s =
     (if length s = 24 \<and> (\<forall>c \<in> set s. c \<in> set ''0123456789abcdefABCDEF'')
      then Some (toLowerCase s) else None)"

section \<open>The Post model\<close>

record post =
  post_id :: object_id
  title :: string
  content :: string
  category :: string
  tags :: "string list"
  user :: object_id
  createdAt :: int
  updatedAt :: int

text \<open>The validators of \<open>postSchema\<close>, run on a document before it is written.\<close>

definition schema_valid :: "post \<Rightarrow> bool" where
  "schema_valid p =
     (title p \<noteq> [] \<and> length (title p) \<le> 100 \<and>
      content p \<noteq> [] \<and> length (content p) \<le> 10000 \<and>
      length (category p) \<le> 50 \<and>
      (\<forall>t \<in> set (tags p). length t \<le> 30))"

section \<open>The document store\<close>

text \<open>
  The collection of Post documents in insertion order, whether the store answers at the
  moment, and a count of the operations sent to it.
\<close>

record collection =
  docs :: "post list"
  online :: bool
  calls :: nat

datatype store_error = CastError | ValidationError | DuplicateKey | StoreError

definition tick :: "collection \<Rightarrow> collection" where
  "tick s = s\<lparr>calls := calls s + 1\<rparr>"

text \<open>
  A regular expression with the flag \<open>i\<close>: the pattern either is rejected (\<open>None\<close>) or
  tells of every subject string whether it matches somewhere in it. A pattern without a
  character that is special in a regular expression is searched for as it stands, a letter
  matching in either case; what is made of every other pattern is a parameter of the
  model, the \<open>regex_engine\<close>.
\<close>

type_synonym regex_engine = "string \<Rightarrow> (string \<Rightarrow> bool) option"

definition regex_special :: "char list" where
  "regex_special = CHR 0x5C # ''^$.|?*+()[]{}''"

definition plain :: "string \<Rightarrow> bool" where
  "plain s = (\<forall>c \<in> set s. c \<notin> set regex_special)"

definition ci_substring :: "string \<Rightarrow> string \<Rightarrow> bool" where
  "ci_substring needle hay = includes_str (toLowerCase hay) (toLowerCase needle)"

definition RegExp_i :: "regex_engine \<Rightarrow> string \<Rightarrow> (string \<Rightarrow> bool) option" where
  "RegExp_i rx pat = (if plain pat then Some (ci_substring pat) else rx pat)"

text \<open>The filter documents the routes build.\<close>

datatype cond =
    IdIs object_id
  | UserIs object_id
  | CategoryIs string
  | TagsIn "string list"
  | TitleRegex string
  | ContentRegex string
  | TagsInRegex "string list"
  | Or "cond list"

fun cond_ok :: "regex_engine \<Rightarrow> cond \<Rightarrow> bool" where
  "cond_ok rx (TitleRegex s) = (RegExp_i rx s \<noteq> None)"
| "cond_ok rx (ContentRegex s) = (RegExp_i rx s \<noteq> None)"
| "cond_ok rx (TagsInRegex ss) = list_all (\<lambda>s. RegExp_i rx s \<noteq> None) ss"
| "cond_ok rx (Or cs) = list_all (cond_ok rx) cs"
| "cond_ok rx _ = True"

fun matches :: "regex_engine \<Rightarrow> cond \<Rightarrow> post \<Rightarrow> bool" where
  "matches rx (IdIs i) p = (post_id p = i)"
| "matches rx (UserIs u) p = (user p = u)"
| "matches rx (CategoryIs c) p = (category p = c)"
| "matches rx (TagsIn vs) p = list_ex (\<lambda>t. t \<in> set vs) (tags p)"
| "matches rx (TitleRegex s) p =
     (case RegExp_i rx s of None \<Rightarrow> False | Some m \<Rightarrow> m (title p))"
| "matches rx (ContentRegex s) p =
     (case RegExp_i rx s of None \<Rightarrow> False | Some m \<Rightarrow> m (content p))"
| "matches rx (TagsInRegex ss) p =
     list_ex (\<lambda>s. case RegExp_i rx s of None \<Rightarrow> False | Some m \<Rightarrow> list_ex m (tags p)) ss"
| "matches rx (Or cs) p = list_ex (\<lambda>c. matches rx c p) cs"

text \<open>\<open>Post.find(query)\<close>: the documents satisfying every condition of the filter.\<close>

definition Post_find ::
  "regex_engine \<Rightarrow> cond list \<Rightarrow> collection \<Rightarrow> (store_error + post list) \<times> collection" where
  "Post_find rx q s =
     (if \<not> online s then (Inl StoreError, tick s)
      else if \<not> list_all (cond_ok rx) q then (Inl StoreError, tick s)
      else (Inr (filter (\<lambda>p. list_all (\<lambda>c. matches rx c p) q) (docs s)), tick s))"

text \<open>\<open>.sort({ createdAt: -1 })\<close>: newest first.\<close>

definition sort_createdAt_desc :: "post list \<Rightarrow> post list" where
  "sort_createdAt_desc ps = sort_key (\<lambda>p. - createdAt p) ps"

text \<open>\<open>Post.distinct(field, { user })\<close>; the field is given by the values it holds in a document.\<close>

definition Post_distinct ::
  "(post \<Rightarrow> string list) \<Rightarrow> object_id \<Rightarrow> collection \<Rightarrow> (store_error + string list) \<times> collection" where
  "Post_distinct field uid s =
     (if \<not> online s then (Inl StoreError, tick s)
      else (Inr (remdups (concat (map field (filter (\<lambda>p. user p = uid) (docs s))))), tick s))"

text \<open>The filter \<open>{ _id, user }\<close> of the single-document operations.\<close>

definition by_id_and_user :: "object_id \<Rightarrow> object_id \<Rightarrow> post \<Rightarrow> bool" where
  "by_id_and_user oid uid p = (post_id p = oid \<and> user p = uid)"

text \<open>\<open>Post.findOne({ _id, user })\<close>; the \<open>_id\<close> is cast before anything is sent.\<close>

definition Post_findOne ::
  "string \<Rightarrow> object_id \<Rightarrow> collection \<Rightarrow> (store_error + post option) \<times> collection" where
  "Post_findOne i uid s =
     (case castObjectId i of
        None \<Rightarrow> (Inl CastError, s)
      | Some oid \<Rightarrow>
          if \<not> online s then (Inl StoreError, tick s)
          else (Inr (find (by_id_and_user oid uid) (docs s)), tick s))"

text \<open>\<open>post.save()\<close> of a new document, with \<open>timestamps: true\<close>.\<close>

definition Post_save :: "int \<Rightarrow> post \<Rightarrow> collection \<Rightarrow> (store_error + post) \<times> collection" where
  "Post_save now p s =
     (if \<not> schema_valid p then (Inl ValidationError, s)
      else if \<not> online s then (Inl StoreError, tick s)
      else if post_id p \<in> set (map post_id (docs s)) then (Inl DuplicateKey, tick s)
      else (let p' = p\<lparr>createdAt := now, updatedAt := now\<rparr>
            in (Inr p', tick (s\<lparr>docs := docs s @ [p']\<rparr>))))"

text \<open>The update document of the PUT route, after casting by the schema (setters trim).\<close>

record post_update =
  set_title :: string
  set_content :: string
  set_category :: string
  set_tags :: "string list"

definition apply_update :: "post_update \<Rightarrow> int \<Rightarrow> post \<Rightarrow> post" where
  "apply_update u now p =
     p\<lparr>title := set_title u, content := set_content u, category := set_category u,
       tags := set_tags u, updatedAt := now\<rparr>"

fun update_first :: "('a \<Rightarrow> bool) \<Rightarrow> ('a \<Rightarrow> 'a) \<Rightarrow> 'a list \<Rightarrow> 'a list" where
  "update_first P f [] = []"
| "update_first P f (x # xs) = (if P x then f x # xs else x # update_first P f xs)"

fun delete_first :: "('a \<Rightarrow> bool) \<Rightarrow> 'a list \<Rightarrow> 'a list" where
  "delete_first P [] = []"
| "delete_first P (x # xs) = (if P x then xs else x # delete_first P xs)"

text \<open>
  \<open>Post.findOneAndUpdate({ _id, user }, update, { new: true, runValidators: true })\<close>:
  the updated document is returned, \<open>updatedAt\<close> is refreshed by \<open>timestamps\<close>.
\<close>

definition Post_findOneAndUpdate ::
  "string \<Rightarrow> object_id \<Rightarrow> post_update \<Rightarrow> int \<Rightarrow> collection
     \<Rightarrow> (store_error + post option) \<times> collection" where
  "Post_findOneAndUpdate i uid u now s =
     (case castObjectId i of
        None \<Rightarrow> (Inl CastError, s)
      | Some oid \<Rightarrow>
          if \<not> (set_title u \<noteq> [] \<and> length (set_title u) \<le> 100 \<and>
                 set_content u \<noteq> [] \<and> length (set_content u) \<le> 10000 \<and>
                 length (set_category u) \<le> 50 \<and>
                 (\<forall>t \<in> set (set_tags u). length t \<le> 30))
          then (Inl ValidationError, s)
          else if \<not> online s then (Inl StoreError, tick s)
          else (case find (by_id_and_user oid uid) (docs s) of
                  None \<Rightarrow> (Inr None, tick s)
                | Some p \<Rightarrow>
                    (Inr (Some (apply_update u now p)),
                     tick (s\<lparr>docs := update_first (by_id_and_user oid uid)
                                       (apply_update u now) (docs s)\<rparr>))))"

text \<open>\<open>Post.findOneAndDelete({ _id, user })\<close>.\<close>

definition Post_findOneAndDelete ::
  "string \<Rightarrow> object_id \<Rightarrow> collection \<Rightarrow> (store_error + post option) \<times> collection" where
  "Post_findOneAndDelete i uid s =
     (case castObjectId i of
        None \<Rightarrow> (Inl CastError, s)
      | Some oid \<Rightarrow>
          if \<not> online s then (Inl StoreError, tick s)
          else (case find (by_id_and_user oid uid) (docs s) of
                  None \<Rightarrow> (Inr None, tick s)
                | Some p \<Rightarrow>
                    (Inr (Some p),
                     tick (s\<lparr>docs := delete_first (by_id_and_user oid uid) (docs s)\<rparr>))))"

section \<open>Requests and responses\<close>

record list_query =
  q_category :: "string option"
  q_tag :: "string option"
  q_search :: "string option"

datatype tags_value = TagsArray "string list" | NotAnArray

record post_body =
  body_title :: "string option"
  body_content :: "string option"
  body_category :: "string option"
  body_tags :: "tags_value option"

record request =
  user_id :: object_id
  originalUrl :: string
  query :: list_query
  params_id :: string
  body :: post_body

record validation_error =
  param :: string
  msg :: string

datatype payload =
    PostList "post list"
  | PostDoc post
  | StringList "string list"
  | Message string
  | ValidationFailed "validation_error list"

record response =
  status :: nat
  json :: payload

section \<open>The response cache\<close>

record cache_entry =
  data :: payload
  timestamp :: int

record cache_maps =
  cache_categories :: "string \<rightharpoonup> cache_entry"
  cache_tags :: "string \<rightharpoonup> cache_entry"
  cache_posts :: "string \<rightharpoonup> cache_entry"

text \<open>\<open>cache.clearCache(userId)\<close>; \<open>None\<close> is the default \<open>null\<close>.\<close>

definition clearCache :: "object_id option \<Rightarrow> cache_maps \<Rightarrow> cache_maps" where
  "clearCache userId c =
     (case userId of
        Some uid \<Rightarrow>
          c\<lparr>cache_posts := (\<lambda>key. if prefix (uid @ '':'') key then None else cache_posts c key),
            cache_categories :=
              (\<lambda>key. if key = ''categories:'' @ uid then None else cache_categories c key),
            cache_tags := (\<lambda>key. if key = ''tags:'' @ uid then None else cache_tags c key)\<rparr>
      | None \<Rightarrow>
          \<lparr>cache_categories = Map.empty, cache_tags = Map.empty, cache_posts = Map.empty\<rparr>)"

record state =
  store :: collection
  cache :: cache_maps

text \<open>
  \<open>cached && Date.now() - cached.timestamp < duration\<close>: the entry, if there is one and
  it is younger than the duration.
\<close>

definition unexpired :: "cache_entry option \<Rightarrow> int \<Rightarrow> int \<Rightarrow> cache_entry option" where
  "unexpired cached now duration =
     (case cached of
        None \<Rightarrow> None
      | Some e \<Rightarrow> if now - timestamp e < duration then Some e else None)"

text \<open>
  \<open>cacheMiddleware(duration)\<close>. \<open>now\<close> is the clock when the entry is looked up, \<open>later\<close>
  the clock when the handler's \<open>res.json\<close> runs. A cached payload is sent with the default
  status 200; whatever the handler passes to \<open>res.json\<close> is stored.
\<close>

definition cacheMiddleware ::
  "int \<Rightarrow> request \<Rightarrow> int \<Rightarrow> int \<Rightarrow> (collection \<Rightarrow> response \<times> collection)
     \<Rightarrow> state \<Rightarrow> response \<times> state" where
  "cacheMiddleware duration req now later handler st =
     (let key = user_id req @ '':'' @ originalUrl req
      in case unexpired (cache_posts (cache st) key) now duration of
           Some cached \<Rightarrow> (\<lparr>status = 200, json = data cached\<rparr>, st)
         | None \<Rightarrow>
             (let (res, s') = handler (store st)
              in (res,
                  \<lparr>store = s',
                   cache = (cache st)\<lparr>cache_posts :=
                     (cache_posts (cache st))(key \<mapsto> \<lparr>data = json res, timestamp = later\<rparr>)\<rparr>\<rparr>)))"

section \<open>Request validation\<close>

text \<open>
  The validation chains of the POST and PUT routes. Every chain runs and adds its error to
  the result, in the order the chains are listed; an absent \<open>title\<close> or \<open>content\<close> is
  validated as the empty string, an absent \<open>category\<close> or \<open>tags\<close> is skipped.
\<close>

definition check_title :: "post_body \<Rightarrow> validation_error list" where
  "check_title b =
     (let v = trim (case body_title b of None \<Rightarrow> [] | Some s \<Rightarrow> s)
      in if 1 \<le> length v \<and> length v \<le> 100 then []
         else [\<lparr>param = ''title'', msg = ''Title must be between 1 and 100 characters''\<rparr>])"

definition check_content :: "post_body \<Rightarrow> validation_error list" where
  "check_content b =
     (let v = trim (case body_content b of None \<Rightarrow> [] | Some s \<Rightarrow> s)
      in if 1 \<le> length v \<and> length v \<le> 10000 then []
         else [\<lparr>param = ''content'', msg = ''Content must be between 1 and 10000 characters''\<rparr>])"

definition check_category :: "post_body \<Rightarrow> validation_error list" where
  "check_category b =
     (case body_category b of
        None \<Rightarrow> []
      | Some s \<Rightarrow>
          if length (trim s) \<le> 50 then []
          else [\<lparr>param = ''category'', msg = ''Category cannot exceed 50 characters''\<rparr>])"

definition check_tags :: "post_body \<Rightarrow> validation_error list" where
  "check_tags b =
     (case body_tags b of
        None \<Rightarrow> []
      | Some (TagsArray ts) \<Rightarrow> []
      | Some NotAnArray \<Rightarrow> [\<lparr>param = ''tags'', msg = ''Tags must be an array''\<rparr>])"

definition validationResult :: "post_body \<Rightarrow> validation_error list" where
  "validationResult b = check_title b @ check_content b @ check_category b @ check_tags b"

text \<open>The body after the \<open>trim()\<close> sanitizers of the chains have run.\<close>

definition sanitized :: "post_body \<Rightarrow> post_body" where
  "sanitized b =
     b\<lparr>body_title := map_option trim (body_title b),
       body_content := map_option trim (body_content b),
       body_category := map_option trim (body_category b)\<rparr>"

text \<open>\<open>category || 'General'\<close> and \<open>tags || []\<close> (an array, even empty, is truthy).\<close>

definition category_or_General :: "string option \<Rightarrow> string" where
  "category_or_General c = (if truthy c then (case c of Some s \<Rightarrow> s | None \<Rightarrow> []) else ''General'')"

definition tags_or_empty :: "tags_value option \<Rightarrow> string list" where
  "tags_or_empty t = (case t of Some (TagsArray ts) \<Rightarrow> ts | _ \<Rightarrow> [])"

definition string_or_empty :: "string option \<Rightarrow> string" where
  "string_or_empty v = (case v of Some s \<Rightarrow> s | None \<Rightarrow> [])"

text \<open>
  \<open>new Post({...})\<close>: the schema's setters trim the strings; the time stamps are written by
  \<open>save\<close>.
\<close>

definition new_Post ::
  "object_id \<Rightarrow> string \<Rightarrow> string \<Rightarrow> string \<Rightarrow> string list \<Rightarrow> object_id \<Rightarrow> post" where
  "new_Post i t c cat tgs uid =
     \<lparr>post_id = i, title = trim t, content = trim c, category = trim cat,
      tags = map trim tgs, user = uid, createdAt = 0, updatedAt = 0\<rparr>"

section \<open>The routes\<close>

definition server_error :: response where
  "server_error = \<lparr>status = 500, json = Message ''Server error''\<rparr>"

definition not_found :: response where
  "not_found = \<lparr>status = 404, json = Message ''Post not found''\<rparr>"

definition invalid_id :: response where
  "invalid_id = \<lparr>status = 400, json = Message ''Invalid post ID''\<rparr>"

text \<open>
  The handler of \<open>GET /\<close>. Building the filter can throw (\<open>new RegExp(search, 'i')\<close> on a
  pattern the engine rejects); that and a failing store end in the \<open>catch\<close> branch.
\<close>

definition build_query :: "regex_engine \<Rightarrow> request \<Rightarrow> (cond list) option" where
  "build_query rx req =
     (let q0 = [UserIs (user_id req)];
          q1 = (case q_category (query req) of
                  Some c \<Rightarrow> if c \<noteq> [] \<and> c \<noteq> ''All'' then q0 @ [CategoryIs c] else q0
                | None \<Rightarrow> q0);
          q2 = (case q_tag (query req) of
                  Some t \<Rightarrow> if t \<noteq> [] then q1 @ [TagsIn [t]] else q1
                | None \<Rightarrow> q1)
      in case q_search (query req) of
           Some s \<Rightarrow>
             if s \<noteq> [] then
               (case RegExp_i rx s of
                  None \<Rightarrow> None
                | Some re \<Rightarrow> Some (q2 @ [Or [TitleRegex s, ContentRegex s, TagsInRegex [s]]]))
             else Some q2
         | None \<Rightarrow> Some q2)"

definition get_posts_handler ::
  "regex_engine \<Rightarrow> request \<Rightarrow> collection \<Rightarrow> response \<times> collection" where
  "get_posts_handler rx req s =
     (case build_query rx req of
        None \<Rightarrow> (server_error, s)
      | Some q \<Rightarrow>
          (case Post_find rx q s of
             (Inl e, s') \<Rightarrow> (server_error, s')
           | (Inr posts, s') \<Rightarrow> (\<lparr>status = 200, json = PostList (sort_createdAt_desc posts)\<rparr>, s')))"

definition list_cache_duration :: int where
  "list_cache_duration = 60000"

definition aggregate_cache_duration :: int where
  "aggregate_cache_duration = 600000"

definition router_get_posts ::
  "regex_engine \<Rightarrow> request \<Rightarrow> int \<Rightarrow> int \<Rightarrow> state \<Rightarrow> response \<times> state" where
  "router_get_posts rx req now later st =
     cacheMiddleware list_cache_duration req now later (get_posts_handler rx req) st"

text \<open>\<open>GET /categories\<close> and \<open>GET /tags\<close>: the same code over two maps and two fields.\<close>

definition router_get_categories :: "request \<Rightarrow> int \<Rightarrow> int \<Rightarrow> state \<Rightarrow> response \<times> state" where
  "router_get_categories req now later st =
     (let cacheKey = ''categories:'' @ user_id req;
          cached = unexpired (cache_categories (cache st) cacheKey) now aggregate_cache_duration
      in case cached of
           Some cached \<Rightarrow> (\<lparr>status = 200, json = data cached\<rparr>, st)
         | None \<Rightarrow>
             (case Post_distinct (\<lambda>p. [category p]) (user_id req) (store st) of
                (Inl e, s') \<Rightarrow> (\<lparr>status = 200, json = StringList []\<rparr>, st\<lparr>store := s'\<rparr>)
              | (Inr result, s') \<Rightarrow>
                  (\<lparr>status = 200, json = StringList result\<rparr>,
                   \<lparr>store = s',
                    cache = (cache st)\<lparr>cache_categories :=
                      (cache_categories (cache st))
                        (cacheKey \<mapsto> \<lparr>data = StringList result, timestamp = later\<rparr>)\<rparr>\<rparr>)))"

definition router_get_tags :: "request \<Rightarrow> int \<Rightarrow> int \<Rightarrow> state \<Rightarrow> response \<times> state" where
  "router_get_tags req now later st =
     (let cacheKey = ''tags:'' @ user_id req;
          cached = unexpired (cache_tags (cache st) cacheKey) now aggregate_cache_duration
      in case cached of
           Some cached \<Rightarrow> (\<lparr>status = 200, json = data cached\<rparr>, st)
         | None \<Rightarrow>
             (case Post_distinct tags (user_id req) (store st) of
                (Inl e, s') \<Rightarrow> (\<lparr>status = 200, json = StringList []\<rparr>, st\<lparr>store := s'\<rparr>)
              | (Inr result, s') \<Rightarrow>
                  (\<lparr>status = 200, json = StringList result\<rparr>,
                   \<lparr>store = s',
                    cache = (cache st)\<lparr>cache_tags :=
                      (cache_tags (cache st))
                        (cacheKey \<mapsto> \<lparr>data = StringList result, timestamp = later\<rparr>)\<rparr>\<rparr>)))"

text \<open>\<open>GET /:id\<close>.\<close>

definition router_get_post :: "request \<Rightarrow> state \<Rightarrow> response \<times> state" where
  "router_get_post req st =
     (case Post_findOne (params_id req) (user_id req) (store st) of
        (Inl CastError, s') \<Rightarrow> (invalid_id, st\<lparr>store := s'\<rparr>)
      | (Inl e, s') \<Rightarrow> (server_error, st\<lparr>store := s'\<rparr>)
      | (Inr None, s') \<Rightarrow> (not_found, st\<lparr>store := s'\<rparr>)
      | (Inr (Some p), s') \<Rightarrow> (\<lparr>status = 200, json = PostDoc p\<rparr>, st\<lparr>store := s'\<rparr>))"

text \<open>
  \<open>POST /\<close>; \<open>new_id\<close> is the \<open>_id\<close> the new document is given, \<open>now\<close> the clock at
  \<open>save\<close>. The document is \<open>new Post({ title, content, category: category || 'General',
  tags: tags || [], user: req.user._id })\<close>.
\<close>

definition post_of_body :: "object_id \<Rightarrow> object_id \<Rightarrow> post_body \<Rightarrow> post" where
  "post_of_body new_id uid b =
     new_Post new_id (string_or_empty (body_title b)) (string_or_empty (body_content b))
       (category_or_General (body_category b)) (tags_or_empty (body_tags b)) uid"


definition router_post :: "request \<Rightarrow> object_id \<Rightarrow> int \<Rightarrow> state \<Rightarrow> response \<times> state" where
  "router_post req new_id now st =
     (let errors = validationResult (body req)
      in if errors \<noteq> [] then (\<lparr>status = 400, json = ValidationFailed errors\<rparr>, st)
         else
           (let p = post_of_body new_id (user_id req) (sanitized (body req))
            in case Post_save now p (store st) of
                 (Inl e, s') \<Rightarrow> (server_error, st\<lparr>store := s'\<rparr>)
               | (Inr saved, s') \<Rightarrow>
                   (\<lparr>status = 201, json = PostDoc saved\<rparr>,
                    \<lparr>store = s', cache = clearCache (Some (user_id req)) (cache st)\<rparr>)))"

text \<open>
  \<open>PUT /:id\<close>. The update document \<open>{ title, content, category: category || 'General',
  tags: tags || [] }\<close> is cast by the schema, whose setters trim.
\<close>

definition update_document :: "post_body \<Rightarrow> post_update" where
  "update_document b =
     \<lparr>set_title = trim (string_or_empty (body_title b)),
      set_content = trim (string_or_empty (body_content b)),
      set_category = trim (category_or_General (body_category b)),
      set_tags = map trim (tags_or_empty (body_tags b))\<rparr>"


definition router_put :: "request \<Rightarrow> int \<Rightarrow> state \<Rightarrow> response \<times> state" where
  "router_put req now st =
     (let errors = validationResult (body req)
      in if errors \<noteq> [] then (\<lparr>status = 400, json = ValidationFailed errors\<rparr>, st)
         else
           (let b = sanitized (body req);
                u = update_document b
            in case Post_findOneAndUpdate (params_id req) (user_id req) u now (store st) of
                 (Inl CastError, s') \<Rightarrow> (invalid_id, st\<lparr>store := s'\<rparr>)
               | (Inl e, s') \<Rightarrow> (server_error, st\<lparr>store := s'\<rparr>)
               | (Inr None, s') \<Rightarrow> (not_found, st\<lparr>store := s'\<rparr>)
               | (Inr (Some p), s') \<Rightarrow>
                   (\<lparr>status = 200, json = PostDoc p\<rparr>,
                    \<lparr>store = s', cache = clearCache (Some (user_id req)) (cache st)\<rparr>)))"

text \<open>\<open>DELETE /:id\<close>.\<close>

definition router_delete :: "request \<Rightarrow> state \<Rightarrow> response \<times> state" where
  "router_delete req st =
     (case Post_findOneAndDelete (params_id req) (user_id req) (store st) of
        (Inl CastError, s') \<Rightarrow> (invalid_id, st\<lparr>store := s'\<rparr>)
      | (Inl e, s') \<Rightarrow> (server_error, st\<lparr>store := s'\<rparr>)
      | (Inr None, s') \<Rightarrow> (not_found, st\<lparr>store := s'\<rparr>)
      | (Inr (Some p), s') \<Rightarrow>
          (\<lparr>status = 200, json = Message ''Post deleted successfully''\<rparr>,
           \<lparr>store = s', cache = clearCache (Some (user_id req)) (cache st)\<rparr>))"

section \<open>The service as a whole\<close>

text \<open>
  What a request meets besides the state: the clock when it arrives and when it is answered,
  and the identifier a document created by it would get.
\<close>

record ambient =
  clock :: int
  clock_later :: int
  fresh_id :: object_id

datatype route = GET_posts | GET_categories | GET_tags | GET_post | POST_posts | PUT_post | DELETE_post

definition serve ::
  "regex_engine \<Rightarrow> route \<Rightarrow> request \<Rightarrow> ambient \<Rightarrow> state \<Rightarrow> response \<times> state" where
  "serve rx rt req amb st =
     (case rt of
        GET_posts \<Rightarrow> router_get_posts rx req (clock amb) (clock_later amb) st
      | GET_categories \<Rightarrow> router_get_categories req (clock amb) (clock_later amb) st
      | GET_tags \<Rightarrow> router_get_tags req (clock amb) (clock_later amb) st
      | GET_post \<Rightarrow> router_get_post req st
      | POST_posts \<Rightarrow> router_post req (fresh_id amb) (clock amb) st
      | PUT_post \<Rightarrow> router_put req (clock amb) st
      | DELETE_post \<Rightarrow> router_delete req st)"

text \<open>The service starts with an empty collection and empty caches.\<close>

definition initial :: state where
  "initial =
     \<lparr>store = \<lparr>docs = [], online = True, calls = 0\<rparr>,
      cache = \<lparr>cache_categories = Map.empty, cache_tags = Map.empty, cache_posts = Map.empty\<rparr>\<rparr>"

text \<open>
  What happens to the service: a request of an authenticated user is served, or the store
  goes away or comes back.
\<close>

datatype event = Request route request ambient | StoreStatus bool

fun apply_event :: "regex_engine \<Rightarrow> state \<Rightarrow> event \<Rightarrow> state" where
  "apply_event rx st (Request rt req amb) = snd (serve rx rt req amb st)"
| "apply_event rx st (StoreStatus b) = st\<lparr>store := (store st)\<lparr>online := b\<rparr>\<rparr>"

definition run :: "regex_engine \<Rightarrow> event list \<Rightarrow> state" where
  "run rx evs = foldl (apply_event rx) initial evs"

text \<open>The identity verifier hands the routes the ObjectId of a user.\<close>

fun authenticated :: "event \<Rightarrow> bool" where
  "authenticated (Request rt req amb) = is_object_id (user_id req)"
| "authenticated (StoreStatus b) = True"

section \<open>Notions of the specification\<close>

text \<open>The posts a response carries.\<close>

fun posts_of :: "payload \<Rightarrow> post list" where
  "posts_of (PostList ps) = ps"
| "posts_of (PostDoc p) = [p]"
| "posts_of _ = []"

text \<open>The key of the list cache for a request.\<close>

definition list_key :: "request \<Rightarrow> string" where
  "list_key req = user_id req @ '':'' @ originalUrl req"

text \<open>
  A response of a POST, PUT or DELETE route that reports success (201 for a created post,
  200 for an updated or deleted one).
\<close>

definition succeeded :: "response \<Rightarrow> bool" where
  "succeeded res = (status res = 200 \<or> status res = 201)"

text \<open>The query string is a case-insensitive substring of the title, the content or a tag.\<close>

definition search_hit :: "string \<Rightarrow> post \<Rightarrow> bool" where
  "search_hit s p =
     (ci_substring s (title p) \<or> ci_substring s (content p) \<or> list_ex (ci_substring s) (tags p))"


text \<open>The same with a parameter counting as a filter when it is present and not empty.\<close>

definition kept :: "object_id \<Rightarrow> list_query \<Rightarrow> post \<Rightarrow> bool" where
  "kept uid q p =
     (user p = uid \<and>
      (case q_category q of None \<Rightarrow> True | Some c \<Rightarrow> c = [] \<or> c = ''All'' \<or> category p = c) \<and>
      (case q_tag q of None \<Rightarrow> True | Some t \<Rightarrow> t = [] \<or> t \<in> set (tags p)) \<and>
      (case q_search q of None \<Rightarrow> True | Some s \<Rightarrow> s = [] \<or> search_hit s p))"

text \<open>
  An engine for the examples. On a pattern made of ordinary characters and the wildcard
  \<open>.\<close> (any character but a line feed) it is the search for the pattern, a letter
  matching in either case. It rejects every other pattern, as the engine does the pattern
  \<open>(\<close>, the only other pattern it is given below.
\<close>

fun match_here :: "string \<Rightarrow> string \<Rightarrow> bool" where
  "match_here [] subject = True"
| "match_here (p # ps) [] = False"
| "match_here (p # ps) (c # cs) =
     ((if p = CHR ''.'' then c \<noteq> CHR 0x0A else toLowerCase_char p = toLowerCase_char c)
      \<and> match_here ps cs)"

primrec match_somewhere :: "string \<Rightarrow> string \<Rightarrow> bool" where
  "match_somewhere pat [] = match_here pat []"
| "match_somewhere pat (c # cs) = (match_here pat (c # cs) \<or> match_somewhere pat cs)"

definition simple_regex :: regex_engine where
  "simple_regex pat =
     (if \<forall>c \<in> set pat. c = CHR ''.'' \<or> c \<notin> set regex_special
      then Some (match_somewhere pat) else None)"

text \<open>
  The field constraints of the specification, field by field, on the values as they are
  stored (trimmed): title and content present and of 1 to 100 and 1 to 10000 characters,
  the category of at most 50 characters, the tags an array of strings of at most 30
  characters each.
\<close>

definition title_violated :: "post_body \<Rightarrow> bool" where
  "title_violated b =
     (length (trim (string_or_empty (body_title b))) < 1 \<or>
      100 < length (trim (string_or_empty (body_title b))))"

definition content_violated :: "post_body \<Rightarrow> bool" where
  "content_violated b =
     (length (trim (string_or_empty (body_content b))) < 1 \<or>
      10000 < length (trim (string_or_empty (body_content b))))"

definition category_violated :: "post_body \<Rightarrow> bool" where
  "category_violated b = (50 < length (trim (string_or_empty (body_category b))))"

definition tags_not_array :: "post_body \<Rightarrow> bool" where
  "tags_not_array b = (body_tags b = Some NotAnArray)"

definition tag_too_long :: "post_body \<Rightarrow> bool" where
  "tag_too_long b = list_ex (\<lambda>t. 30 < length (trim t)) (tags_or_empty (body_tags b))"

definition named :: "string \<Rightarrow> bool \<Rightarrow> string list" where
  "named f violated = (if violated then [f] else [])"

definition violated_fields :: "post_body \<Rightarrow> string list" where
  "violated_fields b =
     named ''title'' (title_violated b) @ named ''content'' (content_violated b) @
     named ''category'' (category_violated b) @
     named ''tags'' (tags_not_array b \<or> tag_too_long b)"

text \<open>The same without the limit on the length of a tag.\<close>

definition request_violations :: "post_body \<Rightarrow> string list" where
  "request_violations b =
     named ''title'' (title_violated b) @ named ''content'' (content_violated b) @
     named ''category'' (category_violated b) @ named ''tags'' (tags_not_array b)"

text \<open>
  What the caches hold in every state the service reaches: under a list key of a user only
  posts of that user, under the categories and tags keys no posts.
\<close>

definition cache_inv :: "cache_maps \<Rightarrow> bool" where
  "cache_inv c =
     ((\<forall>uid url e. is_object_id uid \<longrightarrow> cache_posts c (uid @ '':'' @ url) = Some e \<longrightarrow>
          (\<forall>p \<in> set (posts_of (data e)). user p = uid)) \<and>
      (\<forall>k e. cache_categories c k = Some e \<longrightarrow> posts_of (data e) = []) \<and>
      (\<forall>k e. cache_tags c k = Some e \<longrightarrow> posts_of (data e) = []))"

section \<open>Sample data\<close>

definition alice :: object_id where
  "alice = ''aaaaaaaaaaaaaaaaaaaaaaaa''"

definition bob :: object_id where
  "bob = ''bbbbbbbbbbbbbbbbbbbbbbbb''"

definition id1 :: object_id where
  "id1 = ''000000000000000000000001''"

definition blank_body :: post_body where
  "blank_body = \<lparr>body_title = None, body_content = None, body_category = None, body_tags = None\<rparr>"

definition no_filter :: list_query where
  "no_filter = \<lparr>q_category = None, q_tag = None, q_search = None\<rparr>"

definition request_of :: "object_id \<Rightarrow> request" where
  "request_of uid =
     \<lparr>user_id = uid, originalUrl = ''/api/posts'', query = no_filter, params_id = id1,
      body = blank_body\<rparr>"

definition note_body :: post_body where
  "note_body =
     \<lparr>body_title = Some ''Note'', body_content = Some ''Buy milk'', body_category = None,
      body_tags = Some (TagsArray [''errand''])\<rparr>"

definition milk_note :: post where
  "milk_note =
     \<lparr>post_id = id1, title = ''Note'', content = ''Buy milk'', category = ''General'',
      tags = [''errand''], user = alice, createdAt = 1000, updatedAt = 1000\<rparr>"

definition one_note :: state where
  "one_note = initial\<lparr>store := \<lparr>docs = [milk_note], online = True, calls = 1\<rparr>\<rparr>"

definition edit_body :: post_body where
  "edit_body =
     \<lparr>body_title = Some '' Shopping '', body_content = Some ''Buy bread'', body_category = None,
      body_tags = None\<rparr>"

definition edit_request :: request where
  "edit_request = (request_of alice)\<lparr>body := edit_body\<rparr>"

definition edited_note :: post where
  "edited_note =
     milk_note\<lparr>title := ''Shopping'', content := ''Buy bread'', tags := [], updatedAt := 2000\<rparr>"

definition store_down :: state where
  "store_down = initial\<lparr>store := \<lparr>docs = [milk_note], online = False, calls = 1\<rparr>\<rparr>"

definition work_note :: post where
  "work_note = milk_note\<lparr>category := ''Work''\<rparr>"

definition one_work_note :: state where
  "one_work_note = initial\<lparr>store := \<lparr>docs = [work_note], online = True, calls = 1\<rparr>\<rparr>"

definition entry1 :: cache_entry where
  "entry1 = \<lparr>data = PostList [milk_note], timestamp = 1000\<rparr>"

definition entry2 :: cache_entry where
  "entry2 = \<lparr>data = StringList [''General''], timestamp = 1000\<rparr>"

definition entry3 :: cache_entry where
  "entry3 = \<lparr>data = PostList [], timestamp = 1000\<rparr>"

definition shared_cache :: cache_maps where
  "shared_cache =
     \<lparr>cache_categories = [''categories:'' @ alice \<mapsto> entry2, ''categories:'' @ bob \<mapsto> entry2],
      cache_tags = [''tags:'' @ alice \<mapsto> entry2, ''tags:'' @ bob \<mapsto> entry2],
      cache_posts = [alice @ '':/api/posts'' \<mapsto> entry1, bob @ '':/api/posts'' \<mapsto> entry3,
                     alice @ '':/api/posts?tag=errand'' \<mapsto> entry1]\<rparr>"

definition paren_request :: request where
  "paren_request =
     (request_of alice)\<lparr>originalUrl := ''/api/posts?search=('',
                         query := no_filter\<lparr>q_search := Some ''(''\<rparr>\<rparr>"

definition create_request :: request where
  "create_request = (request_of alice)\<lparr>body := note_body\<rparr>"

definition aggregates_cached :: state where
  "aggregates_cached = \<lparr>store = store one_note, cache = shared_cache\<lparr>cache_posts := Map.empty\<rparr>\<rparr>"

definition listed :: "response \<times> state" where
  "listed = router_get_posts simple_regex (request_of alice) 100000 100001 aggregates_cached"

definition edited :: "response \<times> state" where
  "edited = serve simple_regex PUT_post edit_request
     \<lparr>clock = 150500, clock_later = 150501, fresh_id = id1\<rparr> (snd listed)"

definition paren_listed :: "response \<times> state" where
  "paren_listed = router_get_posts simple_regex paren_request 0 1 initial"

definition paren_created :: "response \<times> state" where
  "paren_created = router_post create_request id1 2 (snd paren_listed)"

definition paren_relisted :: "response \<times> state" where
  "paren_relisted = router_get_posts simple_regex paren_request 3 4 (snd paren_created)"

definition back_online :: "state \<Rightarrow> state" where
  "back_online st = st\<lparr>store := (store st)\<lparr>online := True\<rparr>\<rparr>"

definition long_text :: string where
  "long_text = replicate 10001 CHR ''x''"

definition long_tag :: string where
  "long_tag = replicate 31 CHR ''x''"

definition long_tag_body :: post_body where
  "long_tag_body =
     \<lparr>body_title = Some [], body_content = Some ''Buy milk'', body_category = None,
      body_tags = Some (TagsArray [long_tag])\<rparr>"

definition long_tag_request :: request where
  "long_tag_request = (request_of alice)\<lparr>body := long_tag_body\<rparr>"

definition two_errors_body :: post_body where
  "two_errors_body =
     \<lparr>body_title = Some [], body_content = Some long_text,
      body_category = None, body_tags = None\<rparr>"

definition two_errors_request :: request where
  "two_errors_request = (request_of alice)\<lparr>body := two_errors_body\<rparr>"

definition title_error :: validation_error where
  "title_error = \<lparr>param = ''title'', msg = ''Title must be between 1 and 100 characters''\<rparr>"

definition content_error :: validation_error where
  "content_error =
     \<lparr>param = ''content'', msg = ''Content must be between 1 and 10000 characters''\<rparr>"

definition spaced_body :: post_body where
  "spaced_body =
     \<lparr>body_title = Some '' Note'', body_content = Some ''Buy milk'', body_category = Some ''Home'',
      body_tags = Some (TagsArray [''errand''])\<rparr>"

definition spaced_request :: request where
  "spaced_request = (request_of alice)\<lparr>body := spaced_body\<rparr>"

definition spaced_created :: "response \<times> state" where
  "spaced_created = router_post spaced_request id1 1000 initial"

definition spaced_post :: post where
  "spaced_post =
     \<lparr>post_id = id1, title = ''Note'', content = ''Buy milk'', category = ''Home'',
      tags = [''errand''], user = alice, createdAt = 1000, updatedAt = 1000\<rparr>"







definition history :: "event list" where
  "history =
     [Request POST_posts create_request \<lparr>clock = 1000, clock_later = 1001, fresh_id = id1\<rparr>,
      Request GET_posts (request_of alice) \<lparr>clock = 2000, clock_later = 2001, fresh_id = id1\<rparr>]"

definition later_on :: ambient where
  "later_on = \<lparr>clock = 3000, clock_later = 3001, fresh_id = ''000000000000000000000002''\<rparr>"

definition outage_history :: "event list" where
  "outage_history =
     [StoreStatus False,
      Request GET_posts (request_of alice) \<lparr>clock = 5, clock_later = 6, fresh_id = id1\<rparr>,
      StoreStatus True,
      Request POST_posts create_request \<lparr>clock = 10, clock_later = 11, fresh_id = id1\<rparr>]"

definition created_note :: post where
  "created_note = milk_note\<lparr>createdAt := 10, updatedAt := 10\<rparr>"

section \<open>Evaluation and the store operations\<close>

lemmas model_defs =
  router_put_def router_post_def router_delete_def router_get_post_def
  router_get_posts_def router_get_categories_def router_get_tags_def cacheMiddleware_def
  get_posts_handler_def build_query_def unexpired_def list_key_def succeeded_def
  list_cache_duration_def aggregate_cache_duration_def serve_def
  validationResult_def check_title_def check_content_def check_category_def check_tags_def
  sanitized_def update_document_def post_of_body_def string_or_empty_def category_or_General_def
  tags_or_empty_def truthy_def trim_def whitespace_def castObjectId_def is_object_id_def
  toLowerCase_def toLowerCase_char_def
  Post_find_def Post_distinct_def Post_findOneAndUpdate_def Post_findOne_def Post_save_def
  Post_findOneAndDelete_def sort_createdAt_desc_def
  by_id_and_user_def apply_update_def tick_def new_Post_def schema_valid_def clearCache_def
  server_error_def not_found_def invalid_id_def RegExp_i_def plain_def simple_regex_def
  regex_special_def Let_def

lemmas sample_defs =
  one_note_def store_down_def initial_def milk_note_def edited_note_def request_of_def
  edit_request_def edit_body_def id1_def alice_def bob_def note_body_def blank_body_def
  no_filter_def work_note_def one_work_note_def entry1_def entry2_def entry3_def shared_cache_def
  paren_request_def create_request_def aggregates_cached_def listed_def edited_def
  paren_listed_def paren_created_def paren_relisted_def back_online_def

lemma find_Some_holds: "find P xs = Some x \<Longrightarrow> P x \<and> x \<in> set xs"
  by (induction xs) (auto split: if_splits)

lemma find_update_first:
  "find P xs = Some x \<Longrightarrow> P (f x) \<Longrightarrow> find P (update_first P f xs) = Some (f x)"
  by (induction xs) (auto split: if_splits)

lemma filter_update_first:
  "(\<And>x. P x \<Longrightarrow> \<not> Q (f x) \<and> \<not> Q x) \<Longrightarrow> filter Q (update_first P f xs) = filter Q xs"
  by (induction xs) auto

lemma map_update_first:
  "(\<And>x. P x \<Longrightarrow> g (f x) = g x) \<Longrightarrow> map g (update_first P f xs) = map g xs"
  by (induction xs) auto

lemma by_id_and_user_apply_update [simp]:
  "by_id_and_user oid uid (apply_update u now p) = by_id_and_user oid uid p"
  by (simp add: by_id_and_user_def apply_update_def)

text \<open>The five ways \<open>PUT /:id\<close> can end.\<close>

lemma router_put_cases:
  "router_put req now st = (res, st') \<Longrightarrow>
     (res = \<lparr>status = 400, json = ValidationFailed (validationResult (body req))\<rparr> \<and> st' = st) \<or>
     (res = invalid_id \<and> st' = st) \<or>
     (res = server_error \<and> (st' = st \<or> st' = st\<lparr>store := tick (store st)\<rparr>)) \<or>
     (res = not_found \<and> st' = st\<lparr>store := tick (store st)\<rparr>) \<or>
     (\<exists>oid old. validationResult (body req) = [] \<and>
        castObjectId (params_id req) = Some oid \<and> online (store st) \<and>
        find (by_id_and_user oid (user_id req)) (docs (store st)) = Some old \<and>
        res = \<lparr>status = 200,
               json = PostDoc (apply_update (update_document (sanitized (body req))) now old)\<rparr> \<and>
        st' = \<lparr>store = tick ((store st)\<lparr>docs := update_first (by_id_and_user oid (user_id req))
                     (apply_update (update_document (sanitized (body req))) now) (docs (store st))\<rparr>),
               cache = clearCache (Some (user_id req)) (cache st)\<rparr>)"
  by (auto simp: router_put_def Post_findOneAndUpdate_def Let_def
      split: if_splits option.splits sum.splits store_error.splits prod.splits)

lemma router_put_success:
  assumes "router_put req now st = (res, st')" and "status res = 200"
  obtains oid old where
    "validationResult (body req) = []"
    "castObjectId (params_id req) = Some oid"
    "online (store st)"
    "find (by_id_and_user oid (user_id req)) (docs (store st)) = Some old"
    "res = \<lparr>status = 200,
            json = PostDoc (apply_update (update_document (sanitized (body req))) now old)\<rparr>"
    "st' = \<lparr>store = tick ((store st)\<lparr>docs := update_first (by_id_and_user oid (user_id req))
                 (apply_update (update_document (sanitized (body req))) now) (docs (store st))\<rparr>),
           cache = clearCache (Some (user_id req)) (cache st)\<rparr>"
  using router_put_cases[OF assms(1)] assms(2)
  by (auto simp: server_error_def not_found_def invalid_id_def)

text \<open>After a successful update, a Get of the same identifier finds the updated document.\<close>

lemma router_put_then_get:
  assumes "router_put req now st = (res, st')" and "status res = 200"
  obtains oid old where
    "castObjectId (params_id req) = Some oid"
    "find (by_id_and_user oid (user_id req)) (docs (store st)) = Some old"
    "json res = PostDoc (apply_update (update_document (sanitized (body req))) now old)"
    "fst (router_get_post req st') =
       \<lparr>status = 200,
        json = PostDoc (apply_update (update_document (sanitized (body req))) now old)\<rparr>"
    "docs (store st') = update_first (by_id_and_user oid (user_id req))
       (apply_update (update_document (sanitized (body req))) now) (docs (store st))"
proof -
  let ?u = "update_document (sanitized (body req))"
  from assms obtain oid old where
    c: "castObjectId (params_id req) = Some oid" and
    o: "online (store st)" and
    f: "find (by_id_and_user oid (user_id req)) (docs (store st)) = Some old" and
    r: "res = \<lparr>status = 200, json = PostDoc (apply_update ?u now old)\<rparr>" and
    s: "st' = \<lparr>store = tick ((store st)\<lparr>docs := update_first (by_id_and_user oid (user_id req))
                 (apply_update ?u now) (docs (store st))\<rparr>),
           cache = clearCache (Some (user_id req)) (cache st)\<rparr>"
    by (rule router_put_success)
  let ?P = "by_id_and_user oid (user_id req)"
  have P: "?P old" using find_Some_holds[OF f] by simp
  have g: "find ?P (docs (store st')) = Some (apply_update ?u now old)"
    using find_update_first[OF f, of "apply_update ?u now"] P by (simp add: s tick_def)
  have get: "fst (router_get_post req st') =
      \<lparr>status = 200, json = PostDoc (apply_update ?u now old)\<rparr>"
    using g c o by (simp add: router_get_post_def Post_findOne_def s tick_def)
  have d: "docs (store st') = update_first ?P (apply_update ?u now) (docs (store st))"
    by (simp add: s tick_def)
  from c f r get d that show thesis by simp
qed

lemma router_post_cases:
  "router_post req new_id now st = (res, st') \<Longrightarrow>
     (res = \<lparr>status = 400, json = ValidationFailed (validationResult (body req))\<rparr> \<and>
        validationResult (body req) \<noteq> [] \<and> st' = st) \<or>
     (res = server_error \<and> (st' = st \<or> st' = st\<lparr>store := tick (store st)\<rparr>)) \<or>
     (validationResult (body req) = [] \<and> online (store st) \<and>
        schema_valid (post_of_body new_id (user_id req) (sanitized (body req))) \<and>
        new_id \<notin> set (map post_id (docs (store st))) \<and>
        res = \<lparr>status = 201,
               json = PostDoc ((post_of_body new_id (user_id req) (sanitized (body req)))
                        \<lparr>createdAt := now, updatedAt := now\<rparr>)\<rparr> \<and>
        st' = \<lparr>store = tick ((store st)\<lparr>docs := docs (store st) @
                    [(post_of_body new_id (user_id req) (sanitized (body req)))
                        \<lparr>createdAt := now, updatedAt := now\<rparr>]\<rparr>),
               cache = clearCache (Some (user_id req)) (cache st)\<rparr>)"
  by (auto simp: router_post_def Post_save_def Let_def post_of_body_def new_Post_def
      split: if_splits option.splits sum.splits store_error.splits prod.splits)

lemma router_delete_cases:
  "router_delete req st = (res, st') \<Longrightarrow>
     (res = invalid_id \<and> st' = st) \<or>
     (res = server_error \<and> st' = st\<lparr>store := tick (store st)\<rparr>) \<or>
     (res = not_found \<and> st' = st\<lparr>store := tick (store st)\<rparr>) \<or>
     (\<exists>oid old. castObjectId (params_id req) = Some oid \<and> online (store st) \<and>
        find (by_id_and_user oid (user_id req)) (docs (store st)) = Some old \<and>
        res = \<lparr>status = 200, json = Message ''Post deleted successfully''\<rparr> \<and>
        st' = \<lparr>store = tick ((store st)\<lparr>docs :=
                   delete_first (by_id_and_user oid (user_id req)) (docs (store st))\<rparr>),
               cache = clearCache (Some (user_id req)) (cache st)\<rparr>)"
  by (auto simp: router_delete_def Post_findOneAndDelete_def Let_def
      split: if_splits option.splits sum.splits store_error.splits prod.splits)

lemma router_get_post_cases:
  "router_get_post req st = (res, st') \<Longrightarrow>
     (res = invalid_id \<and> st' = st) \<or>
     (res = server_error \<and> st' = st\<lparr>store := tick (store st)\<rparr>) \<or>
     (res = not_found \<and> st' = st\<lparr>store := tick (store st)\<rparr>) \<or>
     (\<exists>oid p. castObjectId (params_id req) = Some oid \<and> online (store st) \<and>
        find (by_id_and_user oid (user_id req)) (docs (store st)) = Some p \<and>
        res = \<lparr>status = 200, json = PostDoc p\<rparr> \<and>
        st' = st\<lparr>store := tick (store st)\<rparr>)"
  by (auto simp: router_get_post_def Post_findOne_def Let_def
      split: if_splits option.splits sum.splits store_error.splits prod.splits)

text \<open>A successful POST, PUT or DELETE ends with \<open>cache.clearCache(req.user._id)\<close>.\<close>

lemma mutation_clears_cache:
  assumes "serve rx rt req amb st = (res, st')"
    and "rt = POST_posts \<or> rt = PUT_post \<or> rt = DELETE_post"
    and "succeeded res"
  shows "cache st' = clearCache (Some (user_id req)) (cache st)"
  using assms
  by (auto simp: serve_def succeeded_def server_error_def not_found_def invalid_id_def
      dest!: router_post_cases router_put_cases router_delete_cases)

lemma same_length_prefix:
  "length a = length b \<Longrightarrow> prefix (a @ x) (b @ y) \<Longrightarrow> a = b"
  by (auto simp: prefix_def)

lemma is_object_id_length: "is_object_id a \<Longrightarrow> length a = 24"
  by (simp add: is_object_id_def)

text \<open>The list route on a cache hit and on a cache miss.\<close>

lemma router_get_posts_hit:
  "cache_posts (cache st) (list_key req) = Some e \<Longrightarrow> now - timestamp e < list_cache_duration
     \<Longrightarrow> router_get_posts rx req now later st = (\<lparr>status = 200, json = data e\<rparr>, st)"
  by (simp add: router_get_posts_def cacheMiddleware_def list_key_def unexpired_def)

lemma router_get_posts_miss:
  "unexpired (cache_posts (cache st) (list_key req)) now list_cache_duration = None \<Longrightarrow>
     router_get_posts rx req now later st =
       (fst (get_posts_handler rx req (store st)),
        \<lparr>store = snd (get_posts_handler rx req (store st)),
         cache = (cache st)\<lparr>cache_posts := (cache_posts (cache st))
           (list_key req \<mapsto> \<lparr>data = json (fst (get_posts_handler rx req (store st))),
                                 timestamp = later\<rparr>)\<rparr>\<rparr>)"
  by (simp add: router_get_posts_def cacheMiddleware_def list_key_def split: prod.splits)

lemma router_get_posts_caches:
  assumes "router_get_posts rx req now later st = (res, st')"
  shows "\<exists>e. cache_posts (cache st') (list_key req) = Some e \<and> data e = json res \<and>
           (unexpired (cache_posts (cache st) (list_key req)) now list_cache_duration = None
              \<longrightarrow> timestamp e = later)"
proof (cases "unexpired (cache_posts (cache st) (list_key req)) now list_cache_duration")
  case None
  from router_get_posts_miss[where rx = rx and later = later, OF None] assms show ?thesis by auto
next
  case (Some e)
  then have "cache_posts (cache st) (list_key req) = Some e" "now - timestamp e < list_cache_duration"
    by (auto simp: unexpired_def split: option.splits if_splits)
  from router_get_posts_hit[where rx = rx and later = later, OF this] assms Some this show ?thesis by auto
qed

lemma handler_offline:
  "\<not> online s \<Longrightarrow> fst (get_posts_handler rx req s) = server_error"
  by (simp add: get_posts_handler_def Post_find_def split: option.splits)

lemma handler_calls:
  "build_query rx req \<noteq> None \<Longrightarrow> calls (snd (get_posts_handler rx req s)) = calls s + 1"
  by (auto simp: get_posts_handler_def Post_find_def tick_def split: option.splits)

lemma handler_no_call:
  "build_query rx req = None \<Longrightarrow> get_posts_handler rx req s = (server_error, s)"
  by (auto simp: get_posts_handler_def)

lemma trim_replicate: "c \<notin> set whitespace \<Longrightarrow> trim (replicate n c) = replicate n c"
  by (simp add: trim_def)

lemma long_text_trim: "trim long_text = long_text"
  unfolding long_text_def by (rule trim_replicate) (simp add: whitespace_def)

lemma long_text_length: "length long_text = 10001"
  unfolding long_text_def by (rule length_replicate)

lemma long_tag_trim: "trim long_tag = long_tag"
  unfolding long_tag_def by (rule trim_replicate) (simp add: whitespace_def)

lemma long_tag_length: "length long_tag = 31"
  unfolding long_tag_def by (rule length_replicate)

lemma not_one_le_length: "(\<not> Suc 0 \<le> length xs) = (xs = [])"
  by (cases xs) simp_all

lemma check_title_param: "map param (check_title b) = named ''title'' (title_violated b)"
  by (cases "body_title b")
    (auto simp: check_title_def title_violated_def named_def string_or_empty_def Let_def
      not_one_le_length)

lemma check_content_param: "map param (check_content b) = named ''content'' (content_violated b)"
  by (cases "body_content b")
    (auto simp: check_content_def content_violated_def named_def string_or_empty_def Let_def
      not_one_le_length)

lemma check_category_param:
  "map param (check_category b) = named ''category'' (category_violated b)"
  by (cases "body_category b")
    (auto simp: check_category_def category_violated_def named_def string_or_empty_def trim_def)

lemma check_tags_param: "map param (check_tags b) = named ''tags'' (tags_not_array b)"
  by (auto simp: check_tags_def tags_not_array_def named_def split: option.splits tags_value.splits)

lemma validationResult_params:
  "map param (validationResult b) = request_violations b"
  by (simp only: validationResult_def request_violations_def map_append check_title_param
      check_content_param check_category_param check_tags_param)

lemma rev_dropWhile_rev_prefix:
  "rev (dropWhile P (rev ys)) @ rev (takeWhile P (rev ys)) = ys"
proof -
  have "rev (takeWhile P (rev ys) @ dropWhile P (rev ys)) = rev (rev ys)"
    by (simp only: takeWhile_dropWhile_id)
  then show ?thesis
    by (simp only: rev_append rev_rev_ident)
qed

lemma dropWhile_rev_dropWhile_rev:
  assumes "dropWhile P ys = ys"
  shows "dropWhile P (rev (dropWhile P (rev ys))) = rev (dropWhile P (rev ys))"
proof (cases "rev (dropWhile P (rev ys)) = []")
  case True
  then show ?thesis by (simp only: dropWhile.simps)
next
  case False
  have "hd (rev (dropWhile P (rev ys)) @ rev (takeWhile P (rev ys))) = hd (rev (dropWhile P (rev ys)))"
    using False by (rule hd_append2)
  then have h: "hd (rev (dropWhile P (rev ys))) = hd ys"
    by (simp only: rev_dropWhile_rev_prefix)
  from False have "ys \<noteq> []"
    by auto
  with assms have "\<not> P (hd ys)"
    by (simp only: dropWhile_eq_self_iff) blast
  with h False show ?thesis
    by (simp only: dropWhile_eq_self_iff) simp
qed

lemma trim_idem [simp]: "trim (trim s) = trim s"
proof -
  let ?W = "\<lambda>c. c \<in> set whitespace"
  have a: "dropWhile ?W (dropWhile ?W s) = dropWhile ?W s"
    by (rule dropWhile_idem)
  have b: "dropWhile ?W (rev (dropWhile ?W (rev (dropWhile ?W s)))) =
      rev (dropWhile ?W (rev (dropWhile ?W s)))"
    using a by (rule dropWhile_rev_dropWhile_rev)
  have c: "dropWhile ?W (dropWhile ?W (rev (dropWhile ?W s))) = dropWhile ?W (rev (dropWhile ?W s))"
    by (rule dropWhile_idem)
  show ?thesis
    unfolding trim_def by (simp only: b rev_rev_ident c)
qed

lemma toLowerCase_hex: "c \<in> set ''0123456789abcdef'' \<Longrightarrow> toLowerCase_char c = c"
  apply (simp only: list.set)
  apply (elim insertE emptyE)
  apply (simp_all add: toLowerCase_char_def)
  done

lemma hex_lower_is_hex:
  "c \<in> set ''0123456789abcdef'' \<Longrightarrow> c \<in> set ''0123456789abcdefABCDEF''"
  apply (simp only: list.set)
  apply (elim insertE emptyE)
  apply simp_all
  done

lemma castObjectId_id:
  assumes "is_object_id s"
  shows "castObjectId s = Some s"
proof -
  from assms have l: "length s = 24" and h: "\<forall>c \<in> set s. c \<in> set ''0123456789abcdef''"
    by (simp_all add: is_object_id_def)
  from h have a: "\<forall>c \<in> set s. c \<in> set ''0123456789abcdefABCDEF''"
    using hex_lower_is_hex by blast
  from h have m: "map toLowerCase_char s = s"
    by (intro map_idI) (simp add: toLowerCase_hex)
  from l a have c: "(length s = 24 \<and> (\<forall>c \<in> set s. c \<in> set ''0123456789abcdefABCDEF'')) = True"
    by blast
  show ?thesis
    unfolding castObjectId_def toLowerCase_def c m by (rule if_True)
qed

lemma find_appended:
  "i \<notin> set (map post_id xs) \<Longrightarrow>
     find (by_id_and_user i uid) (xs @ [p]) = (if by_id_and_user i uid p then Some p else None)"
  by (induction xs) (auto simp: by_id_and_user_def)

lemma router_post_success:
  assumes "router_post req new_id now st = (res, st')" and "status res = 201"
  shows "validationResult (body req) = [] \<and> online (store st) \<and>
         new_id \<notin> set (map post_id (docs (store st))) \<and>
         res = \<lparr>status = 201,
                json = PostDoc ((post_of_body new_id (user_id req) (sanitized (body req)))
                         \<lparr>createdAt := now, updatedAt := now\<rparr>)\<rparr> \<and>
         st' = \<lparr>store = tick ((store st)\<lparr>docs := docs (store st) @
                     [(post_of_body new_id (user_id req) (sanitized (body req)))
                         \<lparr>createdAt := now, updatedAt := now\<rparr>]\<rparr>),
                cache = clearCache (Some (user_id req)) (cache st)\<rparr>"
  using router_post_cases[OF assms(1)] assms(2)
  by (auto simp: server_error_def)

lemma validated_title:
  "check_title b = [] \<Longrightarrow> \<exists>t. body_title b = Some t"
  by (cases "body_title b") (auto simp: check_title_def trim_def)

lemma validated_content:
  "check_content b = [] \<Longrightarrow> \<exists>t. body_content b = Some t"
  by (cases "body_content b") (auto simp: check_content_def trim_def)

lemma validated_tags:
  "check_tags b = [] \<Longrightarrow> body_tags b = None \<or> (\<exists>ts. body_tags b = Some (TagsArray ts))"
  by (auto simp: check_tags_def split: option.splits tags_value.splits)

text \<open>A pattern without special characters: the small e with acute accent finds the capital one.\<close>

lemma RegExp_i_ignores_case:
  "RegExp_i rx [CHR 0xE9] = Some (ci_substring [CHR 0xE9]) \<and>
   ci_substring [CHR 0xE9] [CHR 0xC9] \<and> ci_substring ''hello'' ''Hello World'' \<and>
   \<not> ci_substring ''hello'' ''Help''"
  by (simp add: RegExp_i_def plain_def regex_special_def ci_substring_def toLowerCase_def
      toLowerCase_char_def)





lemma build_query_user:
  "build_query rx req = Some q \<Longrightarrow> \<exists>qs. q = UserIs (user_id req) # qs"
  by (auto simp: build_query_def Let_def split: option.splits if_splits)

lemma handler_posts_owned:
  "\<forall>p \<in> set (posts_of (json (fst (get_posts_handler rx req s)))). user p = user_id req"
proof (cases "build_query rx req")
  case None
  then show ?thesis by (simp add: get_posts_handler_def server_error_def)
next
  case (Some q)
  then obtain qs where "q = UserIs (user_id req) # qs"
    using build_query_user by blast
  with Some show ?thesis
    by (auto simp: get_posts_handler_def Post_find_def server_error_def sort_createdAt_desc_def)
qed

lemma handler_docs: "docs (snd (get_posts_handler rx req s)) = docs s"
  by (auto simp: get_posts_handler_def Post_find_def tick_def split: option.splits)

lemma object_id_key_owner:
  assumes "is_object_id a" and "is_object_id b" and "a @ '':'' @ x = b @ '':'' @ y"
  shows "a = b"
  using assms by (simp add: is_object_id_def append_eq_append_conv)

lemma cache_inv_clear: "cache_inv c \<Longrightarrow> cache_inv (clearCache (Some uid) c)"
  by (auto simp: cache_inv_def clearCache_def split: if_splits)

lemma cache_inv_initial: "cache_inv (cache initial)"
  by (simp add: cache_inv_def initial_def)


lemma list_cases:
  "(\<exists>e. cache_posts (cache st) (list_key req) = Some e \<and>
        router_get_posts rx req now later st = (\<lparr>status = 200, json = data e\<rparr>, st)) \<or>
   router_get_posts rx req now later st =
       (fst (get_posts_handler rx req (store st)),
        \<lparr>store = snd (get_posts_handler rx req (store st)),
         cache = (cache st)\<lparr>cache_posts := (cache_posts (cache st))
           (list_key req \<mapsto> \<lparr>data = json (fst (get_posts_handler rx req (store st))),
                                 timestamp = later\<rparr>)\<rparr>\<rparr>)"
proof (cases "unexpired (cache_posts (cache st) (list_key req)) now list_cache_duration")
  case None
  then show ?thesis using router_get_posts_miss by blast
next
  case (Some e)
  then have "cache_posts (cache st) (list_key req) = Some e" "now - timestamp e < list_cache_duration"
    by (auto simp: unexpired_def split: option.splits if_splits)
  then show ?thesis using router_get_posts_hit by blast
qed

lemma list_isolated:
  assumes "cache_inv (cache st)" and "is_object_id (user_id req)"
  shows "(\<forall>p \<in> set (posts_of (json (fst (router_get_posts rx req now later st)))). user p = user_id req) \<and>
         cache_inv (cache (snd (router_get_posts rx req now later st))) \<and>
         docs (store (snd (router_get_posts rx req now later st))) = docs (store st)"
proof -
  from list_cases[of st req rx now later] show ?thesis
  proof (elim disjE exE conjE)
    fix e
    assume e: "cache_posts (cache st) (list_key req) = Some e"
      and r: "router_get_posts rx req now later st = (\<lparr>status = 200, json = data e\<rparr>, st)"
    from assms e have "\<forall>p \<in> set (posts_of (data e)). user p = user_id req"
      unfolding cache_inv_def list_key_def by blast
    with r assms(1) show ?thesis by simp
  next
    let ?h = "get_posts_handler rx req (store st)"
    assume r: "router_get_posts rx req now later st =
       (fst ?h, \<lparr>store = snd ?h,
         cache = (cache st)\<lparr>cache_posts := (cache_posts (cache st))
           (list_key req \<mapsto> \<lparr>data = json (fst ?h), timestamp = later\<rparr>)\<rparr>\<rparr>)"
    have o: "\<forall>p \<in> set (posts_of (json (fst ?h))). user p = user_id req"
      by (rule handler_posts_owned)
    have i: "cache_inv ((cache st)\<lparr>cache_posts := (cache_posts (cache st))
           (list_key req \<mapsto> \<lparr>data = json (fst ?h), timestamp = later\<rparr>)\<rparr>)"
      unfolding cache_inv_def
    proof (intro conjI allI impI)
      fix uid url e
      assume u: "is_object_id uid"
        and c: "cache_posts ((cache st)\<lparr>cache_posts := (cache_posts (cache st))
           (list_key req \<mapsto> \<lparr>data = json (fst ?h), timestamp = later\<rparr>)\<rparr>) (uid @ '':'' @ url) = Some e"
      show "\<forall>p \<in> set (posts_of (data e)). user p = uid"
      proof (cases "uid @ '':'' @ url = list_key req")
        case True
        then have "uid = user_id req"
          using object_id_key_owner[OF u assms(2)] by (simp add: list_key_def)
        with True c o show ?thesis by auto
      next
        case False
        with c have "cache_posts (cache st) (uid @ '':'' @ url) = Some e" by simp
        with assms(1) u show ?thesis unfolding cache_inv_def by blast
      qed
    next
      fix k e
      assume "cache_categories ((cache st)\<lparr>cache_posts := (cache_posts (cache st))
           (list_key req \<mapsto> \<lparr>data = json (fst ?h), timestamp = later\<rparr>)\<rparr>) k = Some e"
      with assms(1) show "posts_of (data e) = []" unfolding cache_inv_def by simp
    next
      fix k e
      assume "cache_tags ((cache st)\<lparr>cache_posts := (cache_posts (cache st))
           (list_key req \<mapsto> \<lparr>data = json (fst ?h), timestamp = later\<rparr>)\<rparr>) k = Some e"
      with assms(1) show "posts_of (data e) = []" unfolding cache_inv_def by simp
    qed
    from r o i show ?thesis by (simp add: handler_docs)
  qed
qed

lemma categories_isolated:
  assumes "cache_inv (cache st)"
  shows "posts_of (json (fst (router_get_categories req now later st))) = [] \<and>
         cache_inv (cache (snd (router_get_categories req now later st))) \<and>
         docs (store (snd (router_get_categories req now later st))) = docs (store st)"
  using assms
  by (auto simp: router_get_categories_def Post_distinct_def cache_inv_def unexpired_def tick_def Let_def
      split: option.splits if_splits)

lemma tags_isolated:
  assumes "cache_inv (cache st)"
  shows "posts_of (json (fst (router_get_tags req now later st))) = [] \<and>
         cache_inv (cache (snd (router_get_tags req now later st))) \<and>
         docs (store (snd (router_get_tags req now later st))) = docs (store st)"
  using assms
  by (auto simp: router_get_tags_def Post_distinct_def cache_inv_def unexpired_def tick_def Let_def
      split: option.splits if_splits)


lemma filter_delete_first:
  "(\<And>x. P x \<Longrightarrow> \<not> Q x) \<Longrightarrow> filter Q (delete_first P xs) = filter Q xs"
  by (induction xs) auto

lemma get_post_isolated:
  "(\<forall>p \<in> set (posts_of (json (fst (router_get_post req st)))). user p = user_id req) \<and>
   cache (snd (router_get_post req st)) = cache st \<and>
   docs (store (snd (router_get_post req st))) = docs (store st)"
  using router_get_post_cases[of req st "fst (router_get_post req st)" "snd (router_get_post req st)"]
  by (auto simp: invalid_id_def server_error_def not_found_def tick_def by_id_and_user_def
      dest!: find_Some_holds)

lemma post_isolated:
  assumes "cache_inv (cache st)"
  shows "(\<forall>p \<in> set (posts_of (json (fst (router_post req new_id now st)))). user p = user_id req) \<and>
   cache_inv (cache (snd (router_post req new_id now st))) \<and>
   filter (\<lambda>p. user p \<noteq> user_id req) (docs (store (snd (router_post req new_id now st)))) =
     filter (\<lambda>p. user p \<noteq> user_id req) (docs (store st))"
  using router_post_cases[of req new_id now st "fst (router_post req new_id now st)"
      "snd (router_post req new_id now st)"] assms
  by (auto simp: server_error_def tick_def post_of_body_def new_Post_def cache_inv_clear)

lemma put_isolated:
  assumes "cache_inv (cache st)"
  shows "(\<forall>p \<in> set (posts_of (json (fst (router_put req now st)))). user p = user_id req) \<and>
   cache_inv (cache (snd (router_put req now st))) \<and>
   filter (\<lambda>p. user p \<noteq> user_id req) (docs (store (snd (router_put req now st)))) =
     filter (\<lambda>p. user p \<noteq> user_id req) (docs (store st))"
proof -
  have f: "filter (\<lambda>p. user p \<noteq> user_id req)
      (update_first (by_id_and_user oid (user_id req)) (apply_update u now) xs) =
      filter (\<lambda>p. user p \<noteq> user_id req) xs" for oid u xs
    by (rule filter_update_first) (simp add: by_id_and_user_def apply_update_def)
  have u: "find (by_id_and_user oid (user_id req)) xs = Some old \<Longrightarrow>
      user (apply_update u now old) = user_id req" for oid xs old u
    by (auto simp: by_id_and_user_def apply_update_def dest!: find_Some_holds)
  from router_put_cases[of req now st "fst (router_put req now st)" "snd (router_put req now st)"]
    assms show ?thesis
    by (auto simp: server_error_def invalid_id_def not_found_def tick_def cache_inv_clear f u)
qed

lemma delete_isolated:
  assumes "cache_inv (cache st)"
  shows "(\<forall>p \<in> set (posts_of (json (fst (router_delete req st)))). user p = user_id req) \<and>
   cache_inv (cache (snd (router_delete req st))) \<and>
   filter (\<lambda>p. user p \<noteq> user_id req) (docs (store (snd (router_delete req st)))) =
     filter (\<lambda>p. user p \<noteq> user_id req) (docs (store st))"
proof -
  have f: "filter (\<lambda>p. user p \<noteq> user_id req) (delete_first (by_id_and_user oid (user_id req)) xs) =
      filter (\<lambda>p. user p \<noteq> user_id req) xs" for oid xs
    by (rule filter_delete_first) (simp add: by_id_and_user_def)
  from router_delete_cases[of req st "fst (router_delete req st)" "snd (router_delete req st)"]
    assms show ?thesis
    by (auto simp: server_error_def invalid_id_def not_found_def tick_def cache_inv_clear f)
qed

lemma serve_isolated:
  assumes "cache_inv (cache st)" and "is_object_id (user_id req)"
  shows "(\<forall>p \<in> set (posts_of (json (fst (serve rx rt req amb st)))). user p = user_id req) \<and>
         cache_inv (cache (snd (serve rx rt req amb st))) \<and>
         filter (\<lambda>p. user p \<noteq> user_id req) (docs (store (snd (serve rx rt req amb st)))) =
           filter (\<lambda>p. user p \<noteq> user_id req) (docs (store st))"
proof (cases rt)
  case GET_posts
  with list_isolated[OF assms] show ?thesis by (simp add: serve_def)
next
  case GET_categories
  with categories_isolated[OF assms(1)] show ?thesis by (simp add: serve_def)
next
  case GET_tags
  with tags_isolated[OF assms(1)] show ?thesis by (simp add: serve_def)
next
  case GET_post
  with get_post_isolated[of req st] assms(1) show ?thesis by (simp add: serve_def)
next
  case POST_posts
  with post_isolated[OF assms(1)] show ?thesis by (simp add: serve_def)
next
  case PUT_post
  with put_isolated[OF assms(1)] show ?thesis by (simp add: serve_def)
next
  case DELETE_post
  with delete_isolated[OF assms(1)] show ?thesis by (simp add: serve_def)
qed

lemma apply_event_inv:
  "cache_inv (cache st) \<Longrightarrow> authenticated ev \<Longrightarrow> cache_inv (cache (apply_event rx st ev))"
  by (cases ev) (simp_all add: serve_isolated)

lemma foldl_inv:
  "cache_inv (cache st) \<Longrightarrow> \<forall>ev \<in> set evs. authenticated ev \<Longrightarrow>
     cache_inv (cache (foldl (apply_event rx) st evs))"
  by (induction evs arbitrary: st) (simp_all add: apply_event_inv)

lemma run_inv: "\<forall>ev \<in> set evs. authenticated ev \<Longrightarrow> cache_inv (cache (run rx evs))"
  unfolding run_def by (rule foldl_inv) (rule cache_inv_initial)

lemma router_get_posts_expired:
  "cache_posts (cache st) (list_key req) = Some e \<Longrightarrow> \<not> now - timestamp e < list_cache_duration
     \<Longrightarrow> unexpired (cache_posts (cache st) (list_key req)) now list_cache_duration = None"
  by (simp add: unexpired_def)

section \<open>Update\<close>

text \<open>
  C5. For an existing post of the caller, a successful update (status 200) returns the post
  with title, content, category and tags replaced and the modified time stamp set to the
  clock; identifier, owner and created time stamp are those of the post before. In the
  store no other document changes, no document changes its identifier, owner or created
  time stamp, and a Get of the same identifier afterwards returns the updated post.
\<close>

theorem update_frame:
  assumes existing: "castObjectId (params_id req) = Some oid"
      "find (by_id_and_user oid (user_id req)) (docs (store st)) = Some old"
    and success: "router_put req now st = (res, st')" "status res = 200"
  shows "(let u = update_document (sanitized (body req));
              new = old\<lparr>title := set_title u, content := set_content u,
                        category := set_category u, tags := set_tags u, updatedAt := now\<rparr>
          in json res = PostDoc new \<and>
             post_id new = post_id old \<and> user new = user old \<and>
             createdAt new = createdAt old \<and> updatedAt new = now \<and>
             filter (\<lambda>p. \<not> by_id_and_user oid (user_id req) p) (docs (store st')) =
               filter (\<lambda>p. \<not> by_id_and_user oid (user_id req) p) (docs (store st)) \<and>
             map (\<lambda>p. (post_id p, user p, createdAt p)) (docs (store st')) =
               map (\<lambda>p. (post_id p, user p, createdAt p)) (docs (store st)) \<and>
             fst (router_get_post req st') = \<lparr>status = 200, json = PostDoc new\<rparr>)"
proof -
  let ?u = "update_document (sanitized (body req))"
  let ?P = "by_id_and_user oid (user_id req)"
  from success existing have
    r: "json res = PostDoc (apply_update ?u now old)" and
    get: "fst (router_get_post req st') =
      \<lparr>status = 200, json = PostDoc (apply_update ?u now old)\<rparr>" and
    d: "docs (store st') = update_first ?P (apply_update ?u now) (docs (store st))"
    by (auto elim!: router_put_then_get)
  have fr: "filter (\<lambda>p. \<not> ?P p) (docs (store st')) = filter (\<lambda>p. \<not> ?P p) (docs (store st))"
    by (simp add: d filter_update_first)
  have mp: "map (\<lambda>p. (post_id p, user p, createdAt p)) (docs (store st')) =
             map (\<lambda>p. (post_id p, user p, createdAt p)) (docs (store st))"
    by (simp add: d map_update_first apply_update_def)
  show ?thesis
    using r get fr mp by (simp add: apply_update_def Let_def)
qed

theorem update_frame_witness:
  "castObjectId (params_id edit_request) = Some id1 \<and>
   find (by_id_and_user id1 (user_id edit_request)) (docs (store one_note)) = Some milk_note \<and>
   status (fst (router_put edit_request 2000 one_note)) = 200 \<and>
   json (fst (router_put edit_request 2000 one_note)) = PostDoc edited_note \<and>
   createdAt edited_note = createdAt milk_note \<and> user edited_note = user milk_note \<and>
   fst (router_get_post edit_request (snd (router_put edit_request 2000 one_note))) =
     \<lparr>status = 200, json = PostDoc edited_note\<rparr>"
proof -
  have h1: "castObjectId (params_id edit_request) = Some id1"
    by (simp add: model_defs sample_defs)
  have h2: "find (by_id_and_user id1 (user_id edit_request)) (docs (store one_note)) = Some milk_note"
    by (simp add: model_defs sample_defs)
  have h3: "router_put edit_request 2000 one_note =
      (fst (router_put edit_request 2000 one_note), snd (router_put edit_request 2000 one_note))"
    by simp
  have h4: "status (fst (router_put edit_request 2000 one_note)) = 200"
    by (simp add: model_defs sample_defs)
  have u: "update_document (sanitized (body edit_request)) =
      \<lparr>set_title = ''Shopping'', set_content = ''Buy bread'', set_category = ''General'',
       set_tags = []\<rparr>"
    by (simp add: model_defs sample_defs)
  show ?thesis
    using update_frame[OF h1 h2 h3 h4] h1 h2 h4
    by (simp add: u Let_def edited_note_def milk_note_def)
qed

text \<open>
  C10. A successful update whose body has no category, or the empty string as category,
  leaves the post with the category \<open>General\<close>, and one whose body has no tags leaves it
  with no tags, whatever the post held before; the post returned is the post a Get finds
  afterwards.
\<close>

theorem update_resets_absent_category_and_tags:
  assumes "router_put req now st = (res, st')" and "status res = 200"
  shows "\<exists>p. json res = PostDoc p \<and>
           fst (router_get_post req st') = \<lparr>status = 200, json = PostDoc p\<rparr> \<and>
           (body_category (body req) = None \<or> body_category (body req) = Some []
              \<longrightarrow> category p = ''General'') \<and>
           (body_tags (body req) = None \<longrightarrow> tags p = [])"
proof -
  let ?u = "update_document (sanitized (body req))"
  from assms obtain oid old where
    r: "json res = PostDoc (apply_update ?u now old)" and
    get: "fst (router_get_post req st') =
      \<lparr>status = 200, json = PostDoc (apply_update ?u now old)\<rparr>"
    by (auto elim!: router_put_then_get)
  have g: "trim ''General'' = ''General''"
    by (simp add: trim_def whitespace_def)
  have e: "trim [] = []"
    by (simp add: trim_def)
  have cat: "body_category (body req) = None \<or> body_category (body req) = Some []
      \<Longrightarrow> set_category ?u = ''General''"
    by (auto simp: update_document_def sanitized_def category_or_General_def truthy_def g e)
  have tg: "body_tags (body req) = None \<Longrightarrow> set_tags ?u = []"
    by (simp add: update_document_def sanitized_def tags_or_empty_def)
  from r get cat tg show ?thesis
    by (auto simp: apply_update_def)
qed

theorem update_resets_absent_category_and_tags_witness:
  "status (fst (router_put edit_request 2000 one_work_note)) = 200 \<and>
   body_category (body edit_request) = None \<and> body_tags (body edit_request) = None \<and>
   category work_note = ''Work'' \<and> tags work_note = [''errand''] \<and>
   (\<exists>p. json (fst (router_put edit_request 2000 one_work_note)) = PostDoc p \<and>
        category p = ''General'' \<and> tags p = [])"
proof -
  have h1: "router_put edit_request 2000 one_work_note =
      (fst (router_put edit_request 2000 one_work_note),
       snd (router_put edit_request 2000 one_work_note))"
    by simp
  have h2: "status (fst (router_put edit_request 2000 one_work_note)) = 200"
    by (simp add: model_defs sample_defs)
  have h3: "body_category (body edit_request) = None \<and> body_tags (body edit_request) = None"
    by (simp add: sample_defs)
  have h4: "category work_note = ''Work'' \<and> tags work_note = [''errand'']"
    by (simp add: work_note_def milk_note_def)
  from update_resets_absent_category_and_tags[OF h1 h2] h2 h3 h4 show ?thesis
    by auto
qed

section \<open>Categories and tags\<close>

text \<open>
  C7. When the store does not answer and no unexpired entry is cached, the categories
  route and the tags route answer with status 200 and the empty list and cache nothing;
  this is the answer they give when the store answers and holds no post of the caller.
\<close>

theorem aggregate_read_failure_gives_empty_list:
  assumes "\<not> online (store st)"
  shows "(unexpired (cache_categories (cache st) (''categories:'' @ user_id req)) now
            aggregate_cache_duration = None
          \<longrightarrow> fst (router_get_categories req now later st) = \<lparr>status = 200, json = StringList []\<rparr> \<and>
              cache (snd (router_get_categories req now later st)) = cache st \<and>
              fst (router_get_categories req now later
                (st\<lparr>store := \<lparr>docs = filter (\<lambda>p. user p \<noteq> user_id req) (docs (store st)),
                               online = True, calls = calls (store st)\<rparr>\<rparr>))
                = \<lparr>status = 200, json = StringList []\<rparr>) \<and>
         (unexpired (cache_tags (cache st) (''tags:'' @ user_id req)) now
            aggregate_cache_duration = None
          \<longrightarrow> fst (router_get_tags req now later st) = \<lparr>status = 200, json = StringList []\<rparr> \<and>
              cache (snd (router_get_tags req now later st)) = cache st \<and>
              fst (router_get_tags req now later
                (st\<lparr>store := \<lparr>docs = filter (\<lambda>p. user p \<noteq> user_id req) (docs (store st)),
                               online = True, calls = calls (store st)\<rparr>\<rparr>))
                = \<lparr>status = 200, json = StringList []\<rparr>)"
  using assms
  by (simp add: router_get_categories_def router_get_tags_def Post_distinct_def Let_def)

theorem aggregate_read_failure_gives_empty_list_witness:
  "\<not> online (store store_down) \<and>
   unexpired (cache_categories (cache store_down) (''categories:'' @ user_id (request_of alice))) 5
     aggregate_cache_duration = None \<and>
   unexpired (cache_tags (cache store_down) (''tags:'' @ user_id (request_of alice))) 5
     aggregate_cache_duration = None \<and>
   fst (router_get_categories (request_of alice) 5 6 store_down) =
     \<lparr>status = 200, json = StringList []\<rparr> \<and>
   fst (router_get_tags (request_of alice) 5 6 store_down) =
     \<lparr>status = 200, json = StringList []\<rparr>"
proof -
  have h: "\<not> online (store store_down)"
    by (simp add: sample_defs)
  have m1: "unexpired (cache_categories (cache store_down)
      (''categories:'' @ user_id (request_of alice))) 5 aggregate_cache_duration = None"
    by (simp add: sample_defs unexpired_def)
  have m2: "unexpired (cache_tags (cache store_down)
      (''tags:'' @ user_id (request_of alice))) 5 aggregate_cache_duration = None"
    by (simp add: sample_defs unexpired_def)
  from aggregate_read_failure_gives_empty_list[OF h, of "request_of alice" 5 6] h m1 m2
  show ?thesis by simp
qed

section \<open>Invalidation\<close>

text \<open>
  C6. Clearing the cache for an owner, which is what a successful create, update or delete
  does (\<open>mutation_clears_cache\<close>), removes every list entry whose key is that owner's
  identifier, a colon and any URL, and the owner's categories and tags entries; for any
  other owner the list entries under every URL, the categories entry and the tags entry
  are what they were. Owners are ObjectIds.
\<close>

theorem invalidation_scoped_to_owner:
  assumes "is_object_id a" and "is_object_id b" and "a \<noteq> b"
  shows "(\<forall>url. cache_posts (clearCache (Some a) c) (a @ '':'' @ url) = None) \<and>
         cache_categories (clearCache (Some a) c) (''categories:'' @ a) = None \<and>
         cache_tags (clearCache (Some a) c) (''tags:'' @ a) = None \<and>
         (\<forall>url. cache_posts (clearCache (Some a) c) (b @ '':'' @ url) = cache_posts c (b @ '':'' @ url)) \<and>
         cache_categories (clearCache (Some a) c) (''categories:'' @ b) =
           cache_categories c (''categories:'' @ b) \<and>
         cache_tags (clearCache (Some a) c) (''tags:'' @ b) = cache_tags c (''tags:'' @ b)"
proof -
  have "\<not> prefix (a @ '':'') (b @ '':'' @ url)" for url
    using same_length_prefix[of a b "'':''" "'':'' @ url"] assms
    by (auto simp: is_object_id_length)
  then show ?thesis
    using assms(3) by (simp add: clearCache_def)
qed

theorem invalidation_scoped_to_owner_witness:
  "is_object_id alice \<and> is_object_id bob \<and> alice \<noteq> bob \<and>
   cache_posts shared_cache (alice @ '':'' @ ''/api/posts'') = Some entry1 \<and>
   cache_posts (clearCache (Some alice) shared_cache) (alice @ '':'' @ ''/api/posts'') = None \<and>
   cache_posts (clearCache (Some alice) shared_cache) (alice @ '':'' @ ''/api/posts?tag=errand'') = None \<and>
   cache_categories (clearCache (Some alice) shared_cache) (''categories:'' @ alice) = None \<and>
   cache_tags (clearCache (Some alice) shared_cache) (''tags:'' @ alice) = None \<and>
   cache_posts (clearCache (Some alice) shared_cache) (bob @ '':'' @ ''/api/posts'') = Some entry3 \<and>
   cache_categories (clearCache (Some alice) shared_cache) (''categories:'' @ bob) = Some entry2 \<and>
   cache_tags (clearCache (Some alice) shared_cache) (''tags:'' @ bob) = Some entry2"
proof -
  have h1: "is_object_id alice" by (simp add: is_object_id_def alice_def)
  have h2: "is_object_id bob" by (simp add: is_object_id_def bob_def)
  have h3: "alice \<noteq> bob" by (simp add: alice_def bob_def)
  have e: "cache_posts shared_cache (alice @ '':'' @ ''/api/posts'') = Some entry1"
    "cache_posts shared_cache (bob @ '':'' @ ''/api/posts'') = Some entry3"
    "cache_categories shared_cache (''categories:'' @ bob) = Some entry2"
    "cache_tags shared_cache (''tags:'' @ bob) = Some entry2"
    by (simp_all add: shared_cache_def alice_def bob_def)
  from invalidation_scoped_to_owner[OF h1 h2 h3, of shared_cache] h1 h2 h3 e
  show ?thesis by simp
qed

section \<open>The list cache\<close>

text \<open>
  C9, amended. When the store does not answer and no unexpired entry is cached, List answers
  500 with the generic error body and the middleware stores that body with the time of the
  answer. As long as that entry is the one cached under the key, every List of the same
  user and URL arriving less than 60000 ms after that time, whatever the store holds by
  then, is answered with status 200 and the stored error body, and the state, the count of
  store operations included, is left as it was. A successful create, update or delete of
  that user removes the entry, and the List after it is answered by the handler.
\<close>

theorem failed_list_answer_is_cached:
  assumes down: "\<not> online (store st)"
    and miss: "unexpired (cache_posts (cache st) (list_key req)) now list_cache_duration = None"
    and first: "router_get_posts rx req now later st = (res, st')"
    and kept: "cache_posts (cache st'') (list_key req) = cache_posts (cache st') (list_key req)"
    and window: "now' - later < list_cache_duration"
  shows "res = \<lparr>status = 500, json = Message ''Server error''\<rparr> \<and>
         cache_posts (cache st') (list_key req) =
           Some \<lparr>data = Message ''Server error'', timestamp = later\<rparr> \<and>
         router_get_posts rx req now' later' st'' =
           (\<lparr>status = 200, json = Message ''Server error''\<rparr>, st'') \<and>
         ((rt = POST_posts \<or> rt = PUT_post \<or> rt = DELETE_post) \<and> user_id mreq = user_id req \<and>
          succeeded (fst (serve rx rt mreq amb st'')) \<longrightarrow>
            cache_posts (cache (snd (serve rx rt mreq amb st''))) (list_key req) = None \<and>
            fst (router_get_posts rx req now' later' (snd (serve rx rt mreq amb st''))) =
              fst (get_posts_handler rx req (store (snd (serve rx rt mreq amb st'')))))"
proof -
  from router_get_posts_miss[where rx = rx and later = later, OF miss] first
    handler_offline[where rx = rx and req = req, OF down]
  have r: "res = server_error"
    and e: "cache_posts (cache st') (list_key req) =
              Some \<lparr>data = Message ''Server error'', timestamp = later\<rparr>"
    by (auto simp: server_error_def)
  from e kept have "cache_posts (cache st'') (list_key req) =
      Some \<lparr>data = Message ''Server error'', timestamp = later\<rparr>"
    by simp
  from router_get_posts_hit[where now = now' and later = later' and rx = rx, OF this] window
  have h: "router_get_posts rx req now' later' st'' =
           (\<lparr>status = 200, json = Message ''Server error''\<rparr>, st'')"
    by simp
  have m: "(rt = POST_posts \<or> rt = PUT_post \<or> rt = DELETE_post) \<and> user_id mreq = user_id req \<and>
          succeeded (fst (serve rx rt mreq amb st'')) \<longrightarrow>
            cache_posts (cache (snd (serve rx rt mreq amb st''))) (list_key req) = None \<and>
            fst (router_get_posts rx req now' later' (snd (serve rx rt mreq amb st''))) =
              fst (get_posts_handler rx req (store (snd (serve rx rt mreq amb st''))))"
  proof (intro impI, elim conjE)
    let ?s = "snd (serve rx rt mreq amb st'')"
    assume a: "rt = POST_posts \<or> rt = PUT_post \<or> rt = DELETE_post" "user_id mreq = user_id req"
      "succeeded (fst (serve rx rt mreq amb st''))"
    have "serve rx rt mreq amb st'' = (fst (serve rx rt mreq amb st''), ?s)" by simp
    from mutation_clears_cache[OF this a(1) a(3)] a(2)
    have "cache ?s = clearCache (Some (user_id req)) (cache st'')" by simp
    then have n: "cache_posts (cache ?s) (list_key req) = None"
      by (simp add: clearCache_def list_key_def)
    then have "unexpired (cache_posts (cache ?s) (list_key req)) now' list_cache_duration = None"
      by (simp add: unexpired_def)
    from router_get_posts_miss[where rx = rx and later = later', OF this] n
    show "cache_posts (cache ?s) (list_key req) = None \<and>
            fst (router_get_posts rx req now' later' ?s) = fst (get_posts_handler rx req (store ?s))"
      by simp
  qed
  from r e h m show ?thesis
    by (simp only: server_error_def simp_thms)
qed

theorem failed_list_answer_is_cached_witness:
  "\<not> online (store store_down) \<and>
   unexpired (cache_posts (cache store_down) (list_key (request_of alice))) 5 list_cache_duration = None \<and>
   fst (router_get_posts simple_regex (request_of alice) 5 6 store_down) =
     \<lparr>status = 500, json = Message ''Server error''\<rparr> \<and>
   (50000::int) - 6 < list_cache_duration \<and>
   online (store (back_online (snd (router_get_posts simple_regex (request_of alice) 5 6 store_down)))) \<and>
   router_get_posts simple_regex (request_of alice) 50000 50001
       (back_online (snd (router_get_posts simple_regex (request_of alice) 5 6 store_down))) =
     (\<lparr>status = 200, json = Message ''Server error''\<rparr>,
      back_online (snd (router_get_posts simple_regex (request_of alice) 5 6 store_down))) \<and>
   succeeded (fst (serve simple_regex DELETE_post (request_of alice) later_on
       (back_online (snd (router_get_posts simple_regex (request_of alice) 5 6 store_down))))) \<and>
   cache_posts (cache (snd (serve simple_regex DELETE_post (request_of alice) later_on
       (back_online (snd (router_get_posts simple_regex (request_of alice) 5 6 store_down))))))
     (list_key (request_of alice)) = None"
proof -
  let ?st1 = "snd (router_get_posts simple_regex (request_of alice) 5 6 store_down)"
  have h1: "\<not> online (store store_down)"
    by (simp add: sample_defs)
  have h2: "unexpired (cache_posts (cache store_down) (list_key (request_of alice))) 5
      list_cache_duration = None"
    by (simp add: sample_defs unexpired_def)
  have h3: "router_get_posts simple_regex (request_of alice) 5 6 store_down =
      (fst (router_get_posts simple_regex (request_of alice) 5 6 store_down), ?st1)"
    by simp
  have h4: "cache_posts (cache (back_online ?st1)) (list_key (request_of alice)) =
      cache_posts (cache ?st1) (list_key (request_of alice))"
    by (simp add: back_online_def)
  have h5: "(50000::int) - 6 < list_cache_duration"
    by (simp add: list_cache_duration_def)
  have h6: "online (store (back_online ?st1))"
    by (simp add: back_online_def)
  have h7: "(DELETE_post = POST_posts \<or> DELETE_post = PUT_post \<or> DELETE_post = DELETE_post) \<and>
      user_id (request_of alice) = user_id (request_of alice) \<and>
      succeeded (fst (serve simple_regex DELETE_post (request_of alice) later_on (back_online ?st1)))"
    by (simp add: model_defs sample_defs later_on_def)
  from failed_list_answer_is_cached[where later' = 50001 and rt = DELETE_post
      and mreq = "request_of alice" and amb = later_on, OF h1 h2 h3 h4 h5] h1 h2 h5 h6 h7
  show ?thesis by simp
qed

text \<open>
  C9 as stated fails: a List is answered 500 while the store is away and the error is
  cached at time 6; the store comes back and the same user creates a post; the same List at
  time 20, inside the window, is computed from the store and returns the post.
\<close>

theorem failed_list_is_recomputed_after_create:
  "fst (serve simple_regex GET_posts (request_of alice)
         \<lparr>clock = 5, clock_later = 6, fresh_id = id1\<rparr> (run simple_regex [StoreStatus False])) =
     \<lparr>status = 500, json = Message ''Server error''\<rparr> \<and>
   (20::int) - 6 < list_cache_duration \<and>
   fst (serve simple_regex GET_posts (request_of alice)
         \<lparr>clock = 20, clock_later = 21, fresh_id = id1\<rparr> (run simple_regex outage_history)) =
     \<lparr>status = 200, json = PostList [created_note]\<rparr> \<and>
   calls (store (snd (serve simple_regex GET_posts (request_of alice)
         \<lparr>clock = 20, clock_later = 21, fresh_id = id1\<rparr> (run simple_regex outage_history)))) =
     calls (store (run simple_regex outage_history)) + 1"
  by (simp add: run_def outage_history_def created_note_def model_defs sample_defs)

text \<open>
  C3. After a successful create, update or delete of the owner between two identical Lists
  the cached entry is gone and the next List has to query the store. For the search string
  \<open>(\<close> the code does not: the first List is answered 500 and cached, the owner creates a
  post, which removes the entry, and the next identical List is answered 500 again without
  an operation reaching the store, because \<open>new RegExp(search, 'i')\<close> throws on the search
  string, which is not escaped, before \<open>Post.find\<close> is called.
\<close>

theorem relist_after_create_without_store_query:
  "user_id create_request = user_id paren_request \<and>
   fst paren_listed = \<lparr>status = 500, json = Message ''Server error''\<rparr> \<and>
   status (fst paren_created) = 201 \<and>
   cache_posts (cache (snd paren_created)) (list_key paren_request) = None \<and>
   fst paren_relisted = \<lparr>status = 500, json = Message ''Server error''\<rparr> \<and>
   calls (store (snd paren_relisted)) = calls (store (snd paren_created)) \<and>
   calls (store (snd paren_relisted)) \<noteq> calls (store (snd paren_created)) + 1"
  by (simp add: model_defs sample_defs)


text \<open>
  The list cache otherwise. After a List, the cache holds an entry with the payload of the
  answer, and with the time of the answer if the List was computed. An identical List
  arriving less than 60000 ms after the time of that entry is answered with status 200 and
  the same payload and leaves the state, the count of store operations included, as it was;
  one arriving later is computed by the handler and cached again. After a successful
  create, update or delete of that owner the entry is gone and the next List is computed by
  the handler on the store as it is then; when the filter can be built that sends one
  operation to the store. A categories or tags entry is served while it is younger than
  600000 ms; when it is older the store is asked.
\<close>

lemma list_cache_read_and_invalidation:
  assumes first: "router_get_posts rx req now later st = (res, st')"
  shows
   "(\<exists>e. cache_posts (cache st') (list_key req) = Some e \<and> data e = json res \<and>
         (unexpired (cache_posts (cache st) (list_key req)) now list_cache_duration = None
            \<longrightarrow> timestamp e = later)) \<and>
    (\<forall>e. cache_posts (cache st') (list_key req) = Some e \<longrightarrow> now' - timestamp e < 60000 \<longrightarrow>
         router_get_posts rx req now' later' st' = (\<lparr>status = 200, json = json res\<rparr>, st')) \<and>
    (\<forall>e. cache_posts (cache st') (list_key req) = Some e \<longrightarrow> \<not> now' - timestamp e < 60000 \<longrightarrow>
         router_get_posts rx req now' later' st' =
           (fst (get_posts_handler rx req (store st')),
            \<lparr>store = snd (get_posts_handler rx req (store st')),
              cache = (cache st')\<lparr>cache_posts := (cache_posts (cache st'))
                (list_key req \<mapsto> \<lparr>data = json (fst (get_posts_handler rx req (store st'))),
                                      timestamp = later'\<rparr>)\<rparr>\<rparr>)) \<and>
    ((rt = POST_posts \<or> rt = PUT_post \<or> rt = DELETE_post) \<and> user_id mreq = user_id req \<and>
       serve rx rt mreq amb st' = (mres, st'') \<and> succeeded mres \<longrightarrow>
         cache_posts (cache st'') (list_key req) = None \<and>
         router_get_posts rx req now'' later'' st'' =
           (fst (get_posts_handler rx req (store st'')),
            \<lparr>store = snd (get_posts_handler rx req (store st'')),
              cache = (cache st'')\<lparr>cache_posts := (cache_posts (cache st''))
                (list_key req \<mapsto> \<lparr>data = json (fst (get_posts_handler rx req (store st''))),
                                      timestamp = later''\<rparr>)\<rparr>\<rparr>) \<and>
         (build_query rx req \<noteq> None \<longrightarrow>
            calls (store (snd (router_get_posts rx req now'' later'' st''))) = calls (store st'') + 1)) \<and>
    list_cache_duration = 60000 \<and> aggregate_cache_duration = 600000 \<and>
    (cache_categories (cache st) (''categories:'' @ user_id req) = Some ce \<and>
       now - timestamp ce < 600000 \<longrightarrow>
         router_get_categories req now later st = (\<lparr>status = 200, json = data ce\<rparr>, st)) \<and>
    (cache_tags (cache st) (''tags:'' @ user_id req) = Some te \<and>
       now - timestamp te < 600000 \<longrightarrow>
         router_get_tags req now later st = (\<lparr>status = 200, json = data te\<rparr>, st)) \<and>
    (cache_categories (cache st) (''categories:'' @ user_id req) = Some ce \<and>
       \<not> now - timestamp ce < 600000 \<longrightarrow>
         calls (store (snd (router_get_categories req now later st))) = calls (store st) + 1) \<and>
    (cache_tags (cache st) (''tags:'' @ user_id req) = Some te \<and>
       \<not> now - timestamp te < 600000 \<longrightarrow>
         calls (store (snd (router_get_tags req now later st))) = calls (store st) + 1)"
proof -
  have a: "\<exists>e. cache_posts (cache st') (list_key req) = Some e \<and> data e = json res \<and>
         (unexpired (cache_posts (cache st) (list_key req)) now list_cache_duration = None
            \<longrightarrow> timestamp e = later)"
    using first by (rule router_get_posts_caches)
  have b: "\<forall>e. cache_posts (cache st') (list_key req) = Some e \<longrightarrow> now' - timestamp e < 60000 \<longrightarrow>
         router_get_posts rx req now' later' st' = (\<lparr>status = 200, json = json res\<rparr>, st')"
  proof (intro allI impI)
    fix e
    assume h: "cache_posts (cache st') (list_key req) = Some e" "now' - timestamp e < 60000"
    from router_get_posts_hit[where rx = rx and later = later', OF h(1)] h a
    show "router_get_posts rx req now' later' st' = (\<lparr>status = 200, json = json res\<rparr>, st')"
      by (auto simp: list_cache_duration_def)
  qed
  have c: "(rt = POST_posts \<or> rt = PUT_post \<or> rt = DELETE_post) \<and> user_id mreq = user_id req \<and>
       serve rx rt mreq amb st' = (mres, st'') \<and> succeeded mres \<longrightarrow>
         cache_posts (cache st'') (list_key req) = None \<and>
         router_get_posts rx req now'' later'' st'' =
           (fst (get_posts_handler rx req (store st'')),
            \<lparr>store = snd (get_posts_handler rx req (store st'')),
              cache = (cache st'')\<lparr>cache_posts := (cache_posts (cache st''))
                (list_key req \<mapsto> \<lparr>data = json (fst (get_posts_handler rx req (store st''))),
                                      timestamp = later''\<rparr>)\<rparr>\<rparr>) \<and>
         (build_query rx req \<noteq> None \<longrightarrow>
            calls (store (snd (router_get_posts rx req now'' later'' st''))) = calls (store st'') + 1)"
  proof (intro impI, elim conjE)
    assume m: "rt = POST_posts \<or> rt = PUT_post \<or> rt = DELETE_post" "user_id mreq = user_id req"
       "serve rx rt mreq amb st' = (mres, st'')" "succeeded mres"
    have "cache st'' = clearCache (Some (user_id req)) (cache st')"
      using mutation_clears_cache[OF m(3) m(1) m(4)] m(2) by simp
    then have n: "cache_posts (cache st'') (list_key req) = None"
      by (simp add: clearCache_def list_key_def)
    then have u: "unexpired (cache_posts (cache st'') (list_key req)) now'' list_cache_duration = None"
      by (simp add: unexpired_def)
    from router_get_posts_miss[where rx = rx and later = later'', OF u] n
      handler_calls[of rx req "store st''"]
    show "cache_posts (cache st'') (list_key req) = None \<and>
         router_get_posts rx req now'' later'' st'' =
           (fst (get_posts_handler rx req (store st'')),
            \<lparr>store = snd (get_posts_handler rx req (store st'')),
              cache = (cache st'')\<lparr>cache_posts := (cache_posts (cache st''))
                (list_key req \<mapsto> \<lparr>data = json (fst (get_posts_handler rx req (store st''))),
                                      timestamp = later''\<rparr>)\<rparr>\<rparr>) \<and>
         (build_query rx req \<noteq> None \<longrightarrow>
            calls (store (snd (router_get_posts rx req now'' later'' st''))) = calls (store st'') + 1)"
      by simp
  qed
  have d: "cache_categories (cache st) (''categories:'' @ user_id req) = Some ce \<and>
       now - timestamp ce < 600000 \<longrightarrow>
         router_get_categories req now later st = (\<lparr>status = 200, json = data ce\<rparr>, st)"
    by (simp add: router_get_categories_def unexpired_def aggregate_cache_duration_def)
  have e: "cache_tags (cache st) (''tags:'' @ user_id req) = Some te \<and>
       now - timestamp te < 600000 \<longrightarrow>
         router_get_tags req now later st = (\<lparr>status = 200, json = data te\<rparr>, st)"
    by (simp add: router_get_tags_def unexpired_def aggregate_cache_duration_def)
  have b': "\<forall>e. cache_posts (cache st') (list_key req) = Some e \<longrightarrow> \<not> now' - timestamp e < 60000 \<longrightarrow>
         router_get_posts rx req now' later' st' =
           (fst (get_posts_handler rx req (store st')),
            \<lparr>store = snd (get_posts_handler rx req (store st')),
              cache = (cache st')\<lparr>cache_posts := (cache_posts (cache st'))
                (list_key req \<mapsto> \<lparr>data = json (fst (get_posts_handler rx req (store st'))),
                                      timestamp = later'\<rparr>)\<rparr>\<rparr>)"
  proof (intro allI impI)
    fix e
    assume h: "cache_posts (cache st') (list_key req) = Some e" "\<not> now' - timestamp e < 60000"
    then have "unexpired (cache_posts (cache st') (list_key req)) now' list_cache_duration = None"
      by (simp add: unexpired_def list_cache_duration_def)
    then show "router_get_posts rx req now' later' st' =
           (fst (get_posts_handler rx req (store st')),
            \<lparr>store = snd (get_posts_handler rx req (store st')),
              cache = (cache st')\<lparr>cache_posts := (cache_posts (cache st'))
                (list_key req \<mapsto> \<lparr>data = json (fst (get_posts_handler rx req (store st'))),
                                      timestamp = later'\<rparr>)\<rparr>\<rparr>)"
      by (rule router_get_posts_miss)
  qed
  have d': "cache_categories (cache st) (''categories:'' @ user_id req) = Some ce \<and>
       \<not> now - timestamp ce < 600000 \<longrightarrow>
         calls (store (snd (router_get_categories req now later st))) = calls (store st) + 1"
    by (simp add: router_get_categories_def unexpired_def aggregate_cache_duration_def
        Post_distinct_def tick_def)
  have e': "cache_tags (cache st) (''tags:'' @ user_id req) = Some te \<and>
       \<not> now - timestamp te < 600000 \<longrightarrow>
         calls (store (snd (router_get_tags req now later st))) = calls (store st) + 1"
    by (simp add: router_get_tags_def unexpired_def aggregate_cache_duration_def
        Post_distinct_def tick_def)
  show ?thesis
    by (intro conjI) (rule a b b' c d e d' e' list_cache_duration_def aggregate_cache_duration_def)+
qed


lemma list_cache_read_and_invalidation_example:
  "fst listed = \<lparr>status = 200, json = PostList [milk_note]\<rparr> \<and>
   router_get_posts simple_regex (request_of alice) 150000 150001 (snd listed) =
     (\<lparr>status = 200, json = PostList [milk_note]\<rparr>, snd listed) \<and>
   succeeded (fst edited) \<and>
   cache_posts (cache (snd edited)) (list_key (request_of alice)) = None \<and>
   fst (router_get_posts simple_regex (request_of alice) 151000 151001 (snd edited)) =
     \<lparr>status = 200, json = PostList [edited_note\<lparr>updatedAt := 150500\<rparr>]\<rparr> \<and>
   calls (store (snd (router_get_posts simple_regex (request_of alice) 151000 151001 (snd edited)))) =
     calls (store (snd edited)) + 1 \<and>
   router_get_categories (request_of alice) 100000 100001 aggregates_cached =
     (\<lparr>status = 200, json = StringList [''General'']\<rparr>, aggregates_cached) \<and>
   router_get_tags (request_of alice) 100000 100001 aggregates_cached =
     (\<lparr>status = 200, json = StringList [''General'']\<rparr>, aggregates_cached)"
proof -
  let ?req = "request_of alice"
  let ?amb = "\<lparr>clock = 150500, clock_later = 150501, fresh_id = id1\<rparr>"
  have h1: "router_get_posts simple_regex ?req 100000 100001 aggregates_cached = (fst listed, snd listed)"
    by (simp add: listed_def)
  note T = list_cache_read_and_invalidation[OF h1, where now' = 150000 and later' = 150001
      and rt = PUT_post and mreq = edit_request and amb = ?amb and mres = "fst edited"
      and st'' = "snd edited" and now'' = 151000 and later'' = 151001 and ce = entry2 and te = entry2]
  have miss: "unexpired (cache_posts (cache aggregates_cached) (list_key ?req)) 100000
      list_cache_duration = None"
    by (simp add: aggregates_cached_def unexpired_def)
  have r1: "fst listed = \<lparr>status = 200, json = PostList [milk_note]\<rparr>"
    by (simp add: model_defs sample_defs)
  from T miss obtain e where e: "cache_posts (cache (snd listed)) (list_key ?req) = Some e"
      "data e = json (fst listed)" "timestamp e = 100001"
    by blast
  from T e r1 have second: "router_get_posts simple_regex ?req 150000 150001 (snd listed) =
     (\<lparr>status = 200, json = PostList [milk_note]\<rparr>, snd listed)"
    by simp
  have m: "(PUT_post = POST_posts \<or> PUT_post = PUT_post \<or> PUT_post = DELETE_post) \<and>
      user_id edit_request = user_id ?req \<and>
      serve simple_regex PUT_post edit_request ?amb (snd listed) = (fst edited, snd edited) \<and>
      succeeded (fst edited)"
    by (simp add: model_defs sample_defs)
  have b: "build_query simple_regex ?req \<noteq> None"
    by (simp add: model_defs sample_defs)
  from T m b have after: "cache_posts (cache (snd edited)) (list_key ?req) = None"
    "router_get_posts simple_regex ?req 151000 151001 (snd edited) =
           (fst (get_posts_handler simple_regex ?req (store (snd edited))),
            \<lparr>store = snd (get_posts_handler simple_regex ?req (store (snd edited))),
              cache = (cache (snd edited))\<lparr>cache_posts := (cache_posts (cache (snd edited)))
                (list_key ?req \<mapsto> \<lparr>data = json (fst (get_posts_handler simple_regex ?req (store (snd edited)))),
                                      timestamp = 151001\<rparr>)\<rparr>\<rparr>)"
    "calls (store (snd (router_get_posts simple_regex ?req 151000 151001 (snd edited)))) =
       calls (store (snd edited)) + 1"
    by blast+
  have s: "store (snd edited) = \<lparr>docs = [edited_note\<lparr>updatedAt := 150500\<rparr>], online = True, calls = 3\<rparr>"
    by (simp add: model_defs sample_defs)
  have r3: "fst (get_posts_handler simple_regex ?req (store (snd edited))) =
      \<lparr>status = 200, json = PostList [edited_note\<lparr>updatedAt := 150500\<rparr>]\<rparr>"
    unfolding s by (simp add: model_defs sample_defs)
  have c: "cache_categories (cache aggregates_cached) (''categories:'' @ user_id ?req) = Some entry2 \<and>
       100000 - timestamp entry2 < 600000"
    by (simp add: sample_defs)
  from T c have agg: "router_get_categories ?req 100000 100001 aggregates_cached =
      (\<lparr>status = 200, json = data entry2\<rparr>, aggregates_cached)"
    by blast
  have t: "cache_tags (cache aggregates_cached) (''tags:'' @ user_id ?req) = Some entry2 \<and>
       100000 - timestamp entry2 < 600000"
    by (simp add: sample_defs)
  from T t have agt: "router_get_tags ?req 100000 100001 aggregates_cached =
      (\<lparr>status = 200, json = data entry2\<rparr>, aggregates_cached)"
    by blast
  from r1 second m after r3 agg agt show ?thesis
    by (simp add: entry2_def)
qed

section \<open>Validation\<close>

text \<open>
  The checks made on the request are aggregated: a create or update request that fails one
  or more of them (title of 1 to 100 characters, content of 1 to 10000 characters, category
  of at most 50 characters, tags an array) is answered once, with status 400 and the list
  of the errors of all the checks it fails, in the order title, content, category, tags,
  and nothing is changed.
\<close>

lemma validation_errors_are_aggregated:
  assumes "request_violations (body req) \<noteq> []"
    and "rt = POST_posts \<or> rt = PUT_post"
  shows "\<exists>errors. serve rx rt req amb st = (\<lparr>status = 400, json = ValidationFailed errors\<rparr>, st) \<and>
           map param errors = request_violations (body req)"
proof -
  from assms(1) have "validationResult (body req) \<noteq> []"
    using validationResult_params[of "body req"] by auto
  with assms(2) have "serve rx rt req amb st =
      (\<lparr>status = 400, json = ValidationFailed (validationResult (body req))\<rparr>, st)"
    by (auto simp: serve_def router_post_def router_put_def Let_def)
  then show ?thesis
    using validationResult_params by blast
qed

lemma validation_errors_are_aggregated_example:
  "request_violations (body two_errors_request) = [''title'', ''content''] \<and>
   serve simple_regex POST_posts two_errors_request \<lparr>clock = 5, clock_later = 6, fresh_id = id1\<rparr> initial =
     (\<lparr>status = 400, json = ValidationFailed [title_error, content_error]\<rparr>, initial) \<and>
   serve simple_regex PUT_post two_errors_request \<lparr>clock = 5, clock_later = 6, fresh_id = id1\<rparr> one_note =
     (\<lparr>status = 400, json = ValidationFailed [title_error, content_error]\<rparr>, one_note)"
proof -
  let ?amb = "\<lparr>clock = 5, clock_later = 6, fresh_id = id1\<rparr>"
  have e: "trim [] = []" by (simp add: trim_def)
  have v: "request_violations (body two_errors_request) = [''title'', ''content'']"
    by (simp add: request_violations_def named_def title_violated_def content_violated_def
        category_violated_def tags_not_array_def two_errors_request_def two_errors_body_def
        string_or_empty_def long_text_trim long_text_length long_tag_trim long_tag_length e)
  then have n: "request_violations (body two_errors_request) \<noteq> []" by simp
  have r: "validationResult (body two_errors_request) = [title_error, content_error]"
    by (simp add: validationResult_def check_title_def check_content_def check_category_def
        check_tags_def two_errors_request_def two_errors_body_def title_error_def
        content_error_def long_text_trim long_text_length e)
  from validation_errors_are_aggregated[OF n, of POST_posts simple_regex ?amb initial]
  have p: "serve simple_regex POST_posts two_errors_request ?amb initial =
     (\<lparr>status = 400, json = ValidationFailed [title_error, content_error]\<rparr>, initial)"
    by (auto simp: serve_def router_post_def Let_def r)
  from validation_errors_are_aggregated[OF n, of PUT_post simple_regex ?amb one_note]
  have q: "serve simple_regex PUT_post two_errors_request ?amb one_note =
     (\<lparr>status = 400, json = ValidationFailed [title_error, content_error]\<rparr>, one_note)"
    by (auto simp: serve_def router_put_def Let_def r)
  from v p q show ?thesis by simp
qed

text \<open>
  C8. A request that violates several field constraints at once has to be answered with the
  errors of all of them. For a body with an empty title and a tag of 31 characters, which
  violates the constraint on the title and the limit of 30 characters on a tag, the create
  route and the update route answer 400 with the error of the title alone: the checks made
  on the request leave out the limit on a tag, which only the schema declares.
\<close>

theorem long_tag_is_not_reported:
  "violated_fields (body long_tag_request) = [''title'', ''tags''] \<and>
   router_post long_tag_request id1 5 initial =
     (\<lparr>status = 400, json = ValidationFailed [title_error]\<rparr>, initial) \<and>
   router_put long_tag_request 5 one_note =
     (\<lparr>status = 400, json = ValidationFailed [title_error]\<rparr>, one_note) \<and>
   map param [title_error] \<noteq> violated_fields (body long_tag_request)"
proof -
  have e: "trim [] = []" "trim ''Buy milk'' = ''Buy milk''" by (simp_all add: trim_def whitespace_def)
  have v: "violated_fields (body long_tag_request) = [''title'', ''tags'']"
    by (simp add: violated_fields_def named_def title_violated_def content_violated_def
        category_violated_def tags_not_array_def tag_too_long_def tags_or_empty_def
        long_tag_request_def long_tag_body_def string_or_empty_def long_text_trim long_text_length long_tag_trim long_tag_length e)
  have r: "validationResult (body long_tag_request) = [title_error]"
    by (simp add: validationResult_def check_title_def check_content_def check_category_def
        check_tags_def long_tag_request_def long_tag_body_def title_error_def e)
  show ?thesis
    by (simp add: v r router_post_def router_put_def Let_def title_error_def)
qed

section \<open>Create\<close>

text \<open>
  C4, amended. After a successful create (status 201), a Get of the identifier of the new
  post by the same user returns the post the create returned. Its identifier is the new
  one, its owner the caller, both time stamps the clock at the save. Its title and content
  are those of the request trimmed; its category is that of the request trimmed, and
  \<open>General\<close> when the request has none or one that is empty after trimming; its tags are
  those of the request, each trimmed, and none when the request has none.
\<close>

theorem create_then_get_round_trip:
  assumes "router_post req new_id now st = (res, st')" and "status res = 201"
    and "is_object_id new_id"
  shows "\<exists>p t c. json res = PostDoc p \<and>
           fst (router_get_post (req\<lparr>params_id := new_id\<rparr>) st') =
             \<lparr>status = 200, json = PostDoc p\<rparr> \<and>
           post_id p = new_id \<and> user p = user_id req \<and> createdAt p = now \<and> updatedAt p = now \<and>
           body_title (body req) = Some t \<and> title p = trim t \<and>
           body_content (body req) = Some c \<and> content p = trim c \<and>
           category p =
             (case body_category (body req) of
                None \<Rightarrow> ''General''
              | Some cat \<Rightarrow> if trim cat = [] then ''General'' else trim cat) \<and>
           tags p =
             (case body_tags (body req) of
                Some (TagsArray ts) \<Rightarrow> map trim ts
              | _ \<Rightarrow> [])"
proof -
  let ?p = "(post_of_body new_id (user_id req) (sanitized (body req)))
              \<lparr>createdAt := now, updatedAt := now\<rparr>"
  from router_post_success[OF assms(1,2)] have
    v: "validationResult (body req) = []" and o: "online (store st)" and
    n: "new_id \<notin> set (map post_id (docs (store st)))" and
    r: "res = \<lparr>status = 201, json = PostDoc ?p\<rparr>" and
    s: "st' = \<lparr>store = tick ((store st)\<lparr>docs := docs (store st) @ [?p]\<rparr>),
                cache = clearCache (Some (user_id req)) (cache st)\<rparr>"
    by simp_all
  have idp: "post_id ?p = new_id" and up: "user ?p = user_id req"
    by (simp_all add: post_of_body_def new_Post_def)
  have f: "find (by_id_and_user new_id (user_id req)) (docs (store st')) = Some ?p"
    using find_appended[OF n, of "user_id req" ?p] idp up
    by (simp add: s tick_def by_id_and_user_def)
  have g: "fst (router_get_post (req\<lparr>params_id := new_id\<rparr>) st') =
      \<lparr>status = 200, json = PostDoc ?p\<rparr>"
    using f o castObjectId_id[OF assms(3)]
    by (simp add: router_get_post_def Post_findOne_def s tick_def)
  from v obtain t c where t: "body_title (body req) = Some t" and c: "body_content (body req) = Some c"
    using validated_title[of "body req"] validated_content[of "body req"]
    by (auto simp: validationResult_def)
  from v have tg: "body_tags (body req) = None \<or> (\<exists>ts. body_tags (body req) = Some (TagsArray ts))"
    using validated_tags[of "body req"] by (simp add: validationResult_def)
  have gen: "trim ''General'' = ''General''"
    by (simp add: trim_def whitespace_def)
  have ti: "title ?p = trim t" and co: "content ?p = trim c"
    by (simp_all add: post_of_body_def new_Post_def sanitized_def string_or_empty_def t c)
  have ca: "category ?p = (case body_category (body req) of
                None \<Rightarrow> ''General''
              | Some cat \<Rightarrow> if trim cat = [] then ''General'' else trim cat)"
    by (simp add: post_of_body_def new_Post_def sanitized_def category_or_General_def truthy_def gen
        split: option.splits)
  have ta: "tags ?p = (case body_tags (body req) of
                Some (TagsArray ts) \<Rightarrow> map trim ts
              | _ \<Rightarrow> [])"
    using tg by (auto simp: post_of_body_def new_Post_def sanitized_def tags_or_empty_def)
  from r g idp up t c ti co ca ta show ?thesis
    by (intro exI[of _ ?p] exI[of _ t] exI[of _ c]) simp
qed

theorem create_then_get_round_trip_witness:
  "router_post spaced_request id1 1000 initial = (fst spaced_created, snd spaced_created) \<and>
   status (fst spaced_created) = 201 \<and> is_object_id id1 \<and>
   json (fst spaced_created) = PostDoc spaced_post \<and>
   fst (router_get_post (spaced_request\<lparr>params_id := id1\<rparr>) (snd spaced_created)) =
     \<lparr>status = 200, json = PostDoc spaced_post\<rparr>"
proof -
  have h1: "router_post spaced_request id1 1000 initial = (fst spaced_created, snd spaced_created)"
    by (simp add: spaced_created_def)
  have r: "fst spaced_created = \<lparr>status = 201, json = PostDoc spaced_post\<rparr>"
    by (simp add: model_defs sample_defs spaced_created_def spaced_request_def spaced_body_def
        spaced_post_def)
  then have h2: "status (fst spaced_created) = 201" by simp
  have h3: "is_object_id id1"
    by (simp add: is_object_id_def id1_def)
  from create_then_get_round_trip[OF h1 h2 h3] obtain p where
    "json (fst spaced_created) = PostDoc p"
    "fst (router_get_post (spaced_request\<lparr>params_id := id1\<rparr>) (snd spaced_created)) =
       \<lparr>status = 200, json = PostDoc p\<rparr>"
    by blast
  with r h1 h2 h3 show ?thesis by simp
qed

text \<open>
  C4 as stated fails: a request whose title starts with a space is valid and is created,
  and the Get returns the title without the space.
\<close>

theorem create_does_not_keep_title_as_sent:
  "status (fst spaced_created) = 201 \<and>
   body_title (body spaced_request) = Some '' Note'' \<and>
   fst (router_get_post (spaced_request\<lparr>params_id := id1\<rparr>) (snd spaced_created)) =
     \<lparr>status = 200, json = PostDoc spaced_post\<rparr> \<and>
   title spaced_post = ''Note'' \<and>
   Some (title spaced_post) \<noteq> body_title (body spaced_request)"
  by (simp add: model_defs sample_defs spaced_created_def spaced_request_def spaced_body_def
      spaced_post_def)

section \<open>List and its filters\<close>




section \<open>Owner isolation\<close>

text \<open>
  C1. In every state the service reaches from its start by requests of authenticated users
  and by the store going away and coming back, whatever the route, the filters, the
  identifier and the body of a request, every post in the answer belongs to the caller, and
  the posts of all other owners are in the store after the request exactly as before it:
  none is returned, changed or deleted. This covers the answers taken from the cache.
\<close>

theorem owner_isolation:
  assumes "\<forall>ev \<in> set evs. authenticated ev" and "is_object_id (user_id req)"
  shows "(\<forall>p \<in> set (posts_of (json (fst (serve rx rt req amb (run rx evs))))). user p = user_id req) \<and>
         filter (\<lambda>p. user p \<noteq> user_id req) (docs (store (snd (serve rx rt req amb (run rx evs))))) =
           filter (\<lambda>p. user p \<noteq> user_id req) (docs (store (run rx evs)))"
  using serve_isolated[OF run_inv[OF assms(1)] assms(2)] by blast

theorem owner_isolation_witness:
  "list_all authenticated history \<and> is_object_id (user_id (request_of bob)) \<and>
   docs (store (run simple_regex history)) = [milk_note] \<and> user milk_note = alice \<and>
   cache_posts (cache (run simple_regex history)) (list_key (request_of alice)) =
     Some \<lparr>data = PostList [milk_note], timestamp = 2001\<rparr> \<and>
   posts_of (json (fst (serve simple_regex GET_posts (request_of bob) later_on
      (run simple_regex history)))) = [] \<and>
   posts_of (json (fst (serve simple_regex DELETE_post (request_of bob) later_on
      (run simple_regex history)))) = [] \<and>
   filter (\<lambda>p. user p \<noteq> bob)
      (docs (store (snd (serve simple_regex DELETE_post (request_of bob) later_on
         (run simple_regex history))))) = [milk_note]"
proof -
  have h1: "\<forall>ev \<in> set history. authenticated ev"
    by (simp add: history_def create_request_def request_of_def is_object_id_def alice_def)
  have h2: "is_object_id (user_id (request_of bob))"
    by (simp add: request_of_def is_object_id_def bob_def)
  have d: "docs (store (run simple_regex history)) = [milk_note]"
    by (simp add: run_def history_def model_defs sample_defs)
  have c: "cache_posts (cache (run simple_regex history)) (list_key (request_of alice)) =
     Some \<lparr>data = PostList [milk_note], timestamp = 2001\<rparr>"
    by (simp add: run_def history_def model_defs sample_defs)
  have u: "user milk_note = alice" "alice \<noteq> bob" "user_id (request_of bob) = bob"
    by (simp_all add: sample_defs)
  have g: "posts_of (json (fst (serve simple_regex GET_posts (request_of bob) later_on
      (run simple_regex history)))) = []"
    by (simp add: run_def history_def later_on_def model_defs sample_defs)
  have e: "posts_of (json (fst (serve simple_regex DELETE_post (request_of bob) later_on
      (run simple_regex history)))) = []"
    by (simp add: run_def history_def later_on_def model_defs sample_defs)
  from owner_isolation[OF h1 h2, of simple_regex DELETE_post later_on] d u
  have "filter (\<lambda>p. user p \<noteq> bob)
      (docs (store (snd (serve simple_regex DELETE_post (request_of bob) later_on
         (run simple_regex history))))) = [milk_note]"
    by simp
  with h1 h2 d c u g e show ?thesis
    by (simp add: list_all_iff)
qed

end
